theory Spec2Isabelle
  imports Main "HOL-Library.Word"
begin

unbundle bit_operations_syntax

section \<open>The machine: a flat byte-addressed memory and the program break\<close>

text \<open>
  The allocator is written for a 64-bit Unix (it grows the heap with \<open>sbrk\<close>, and its own
  documentation computes with \<open>sizeof(MemoryBlock) = 24\<close> and an 8-byte word). Addresses
  and \<open>size_t\<close> values are 64-bit words whose arithmetic wraps; memory is one flat array
  of bytes, so that a block header and the payload bytes of its neighbours live in the same
  store, exactly as in the process image.
\<close>

type_synonym addr = "64 word"
type_synonym size_t = "64 word"
type_synonym byte = "8 word"

text \<open>
  The process state the allocator works on: the memory, the global \<open>heap_start\<close>
  (\<open>0\<close> is \<open>nullptr\<close>), the current program break, and the operating system's answer
  to a request to move the break (given the current break and the increment).
\<close>

record heap =
  mem :: "addr \<Rightarrow> byte"
  heap_start :: addr
  brk :: addr
  os_grants :: "addr \<Rightarrow> size_t \<Rightarrow> bool"

text \<open>Little-endian 64-bit loads and stores.\<close>

definition load64 :: "(addr \<Rightarrow> byte) \<Rightarrow> addr \<Rightarrow> 64 word" where
  "load64 m a =
     ucast (m a) OR push_bit 8 (ucast (m (a + 1))) OR push_bit 16 (ucast (m (a + 2))) OR
     push_bit 24 (ucast (m (a + 3))) OR push_bit 32 (ucast (m (a + 4))) OR
     push_bit 40 (ucast (m (a + 5))) OR push_bit 48 (ucast (m (a + 6))) OR
     push_bit 56 (ucast (m (a + 7)))"

definition store64 :: "(addr \<Rightarrow> byte) \<Rightarrow> addr \<Rightarrow> 64 word \<Rightarrow> (addr \<Rightarrow> byte)" where
  "store64 m a v = (\<lambda>x. if x - a < 8 then ucast (drop_bit (8 * unat (x - a)) v) else m x)"

text \<open>
  The two library routines \<open>calloc\<close> and \<open>realloc\<close> call: \<open>memset(p, c, n)\<close> and
  \<open>memcpy(dst, src, n)\<close> (for a source and a destination that do not overlap), first on a
  memory, then on the process state.
\<close>

definition memset :: "(addr \<Rightarrow> byte) \<Rightarrow> addr \<Rightarrow> byte \<Rightarrow> size_t \<Rightarrow> (addr \<Rightarrow> byte)" where
  "memset m p c n = (\<lambda>x. if x - p < n then c else m x)"

definition memcpy :: "(addr \<Rightarrow> byte) \<Rightarrow> addr \<Rightarrow> addr \<Rightarrow> size_t \<Rightarrow> (addr \<Rightarrow> byte)" where
  "memcpy m dst src n = (\<lambda>x. if x - dst < n then m (src + (x - dst)) else m x)"

definition memset_heap :: "addr \<Rightarrow> byte \<Rightarrow> size_t \<Rightarrow> heap \<Rightarrow> heap" where
  "memset_heap p c n h = h\<lparr>mem := memset (mem h) p c n\<rparr>"

definition memcpy_heap :: "addr \<Rightarrow> addr \<Rightarrow> size_t \<Rightarrow> heap \<Rightarrow> heap" where
  "memcpy_heap dst src n h = h\<lparr>mem := memcpy (mem h) dst src n\<rparr>"

text \<open>
  \<open>sbrk\<close> is the operating system's, not the allocator's. An increment of zero reports
  the break; otherwise the system either moves the break by the increment (added in two's
  complement, as for the \<open>intptr_t\<close> parameter) and returns the old break, or refuses and
  returns \<open>(void*) -1\<close>. Which requests are granted is the parameter \<open>os_grants\<close> of the
  state, so that every theorem below holds for every policy.
\<close>

definition sbrk :: "size_t \<Rightarrow> heap \<Rightarrow> addr \<times> heap" where
  "sbrk inc h =
     (if inc = 0 then (brk h, h)
      else if os_grants h (brk h) inc then (brk h, h\<lparr>brk := brk h + inc\<rparr>)
      else (- 1, h))"

section \<open>memoryBlock.h\<close>

text \<open>
  \<open>struct MemoryBlock { size_t size; bool isFree; MemoryBlock* next; }\<close>: the size at
  offset 0, the flag at offset 8, the link at offset 16, 24 bytes in all.
\<close>

definition sizeof_MemoryBlock :: size_t where
  "sizeof_MemoryBlock = 24"

definition sizeof_word_t :: size_t where
  "sizeof_word_t = 8"

definition sizeof_size_t :: size_t where
  "sizeof_size_t = 8"

definition sizeof_pointer :: size_t where
  "sizeof_pointer = 8"

text \<open>
  Reading and writing the three fields of the header at address \<open>b\<close>. The flag is one
  byte, written as 1 or 0 and read as "not zero".
\<close>

definition blk_size :: "heap \<Rightarrow> addr \<Rightarrow> size_t" where
  "blk_size h b = load64 (mem h) b"

definition blk_isFree :: "heap \<Rightarrow> addr \<Rightarrow> bool" where
  "blk_isFree h b = (mem h (b + 8) \<noteq> 0)"

definition blk_next :: "heap \<Rightarrow> addr \<Rightarrow> addr" where
  "blk_next h b = load64 (mem h) (b + 16)"

definition set_size :: "addr \<Rightarrow> size_t \<Rightarrow> heap \<Rightarrow> heap" where
  "set_size b v h = h\<lparr>mem := store64 (mem h) b v\<rparr>"

definition set_isFree :: "addr \<Rightarrow> bool \<Rightarrow> heap \<Rightarrow> heap" where
  "set_isFree b f h = h\<lparr>mem := (mem h)(b + 8 := (if f then 1 else 0))\<rparr>"

definition set_next :: "addr \<Rightarrow> addr \<Rightarrow> heap \<Rightarrow> heap" where
  "set_next b n h = h\<lparr>mem := store64 (mem h) (b + 16) n\<rparr>"

text \<open>
  \<open>align\<close> and \<open>allocSize\<close>, in \<open>size_t\<close> arithmetic. The term \<open>allocSize\<close> subtracts
  is \<open>sizeof(std::declval<MemoryBlock>().size)\<close>, the size of the \<open>size\<close> field.
\<close>

definition align :: "size_t \<Rightarrow> size_t" where
  "align n = (n + sizeof_word_t - 1) AND NOT (sizeof_word_t - 1)"

definition allocSize :: "size_t \<Rightarrow> size_t" where
  "allocSize sz = sz + sizeof_MemoryBlock - sizeof_size_t"

section \<open>utils.cpp\<close>

text \<open>
  The functions below keep the order of the source's statements: each read sees the writes
  made before it. A loop over the chain is a partial function; its result is \<open>None\<close> when
  the walk never ends (a chain that runs in a circle).
\<close>

definition splitBlock :: "addr \<Rightarrow> size_t \<Rightarrow> heap \<Rightarrow> heap" where
  "splitBlock block sz h =
     (if blk_size h block \<le> sz + sizeof_MemoryBlock then h
      else
        let newBlock = block + sizeof_MemoryBlock + sz;
            h1 = set_size newBlock (blk_size h block - sz - sizeof_MemoryBlock) h;
            h2 = set_isFree newBlock True h1;
            h3 = set_next newBlock (blk_next h2 block) h2;
            h4 = set_size block sz h3
        in set_next block newBlock h4)"

text \<open>One absorption step: \<open>a->size += sizeof(MemoryBlock) + b->size; a->next = b->next\<close>.\<close>

definition absorb :: "addr \<Rightarrow> addr \<Rightarrow> heap \<Rightarrow> heap" where
  "absorb a b h =
     (let h1 = set_size a (blk_size h a + (sizeof_MemoryBlock + blk_size h b)) h
      in set_next a (blk_next h1 b) h1)"

text \<open>\<open>mergeBlocks\<close>: the guard, then the loop that absorbs free successors.\<close>

partial_function (option) mergeBlocks_loop :: "heap \<Rightarrow> addr \<Rightarrow> heap option" where
  "mergeBlocks_loop h block =
     (if blk_next h block \<noteq> 0 \<and> blk_isFree h (blk_next h block)
      then mergeBlocks_loop
             (let h1 = set_size block
                         (blk_size h block + (sizeof_MemoryBlock + blk_size h (blk_next h block))) h
              in set_next block (blk_next h1 (blk_next h1 block)) h1) block
      else Some h)"

declare mergeBlocks_loop.simps [code]

definition mergeBlocks :: "addr \<Rightarrow> heap \<Rightarrow> heap option" where
  "mergeBlocks block h =
     (if block = 0 \<or> \<not> blk_isFree h block then Some h else mergeBlocks_loop h block)"

text \<open>
  \<open>mergeFreeBlocks\<close>: one step forward, then the scan from \<open>heap_start\<close> for a free
  block whose successor is \<open>block\<close> (\<open>mergePrev\<close> is that scan).
\<close>

partial_function (option) mergePrev :: "heap \<Rightarrow> addr \<Rightarrow> addr \<Rightarrow> heap option" where
  "mergePrev h block current =
     (if current = 0 then Some h
      else if blk_next h current = block \<and> blk_isFree h current
      then Some (absorb current block h)
      else mergePrev h block (blk_next h current))"

declare mergePrev.simps [code]

definition mergeFreeBlocks :: "addr \<Rightarrow> heap \<Rightarrow> heap option" where
  "mergeFreeBlocks block h =
     (let h1 = (if blk_next h block \<noteq> 0 \<and> blk_isFree h (blk_next h block)
                then (let h' = set_size block
                         (blk_size h block + (sizeof_MemoryBlock + blk_size h (blk_next h block))) h
                      in set_next block (blk_next h' (blk_next h' block)) h')
                else h)
      in mergePrev h1 block (heap_start h1))"

text \<open>\<open>findFreeBlock\<close>: the scan from \<open>heap_start\<close>, from the block \<open>current\<close> on.\<close>

partial_function (option) findFree_from :: "heap \<Rightarrow> size_t \<Rightarrow> addr \<Rightarrow> addr option" where
  "findFree_from h sz current =
     (if current = 0 then Some 0
      else if blk_isFree h current \<and> sz \<le> blk_size h current then Some current
      else findFree_from h sz (blk_next h current))"

declare findFree_from.simps [code]

definition findFreeBlock :: "size_t \<Rightarrow> heap \<Rightarrow> addr option" where
  "findFreeBlock sz h = findFree_from h sz (heap_start h)"

text \<open>
  \<open>requestSpace\<close>: \<open>sbrk(0)\<close> for the block address, \<open>sbrk(allocSize(size))\<close> for the
  room, then the three header writes.
\<close>

definition requestSpace :: "size_t \<Rightarrow> heap \<Rightarrow> addr \<times> heap" where
  "requestSpace sz h =
     (let block = fst (sbrk 0 h);
          (r, h1) = sbrk (allocSize sz) h
      in if r = - 1 then (0, h1)
         else
           let h2 = (if heap_start h1 = 0 then h1\<lparr>heap_start := block\<rparr> else h1);
               h3 = set_size block sz h2;
               h4 = set_isFree block False h3
           in (block, set_next block 0 h4))"

section \<open>malloc.cpp\<close>

text \<open>The walk of \<open>malloc\<close> to the last block of the chain, then \<open>malloc\<close> itself.\<close>

partial_function (option) last_block :: "heap \<Rightarrow> addr \<Rightarrow> addr option" where
  "last_block h current =
     (if blk_next h current \<noteq> 0 then last_block h (blk_next h current) else Some current)"

declare last_block.simps [code]

definition malloc :: "size_t \<Rightarrow> heap \<Rightarrow> (addr \<times> heap) option" where
  "malloc sz h =
     (if sz \<le> 0 then Some (0, h)
      else
        let span = align (sizeof_pointer + sz) in
        if heap_start h = 0 then
          (let (block, h1) = requestSpace span h
           in if block = 0 then Some (0, h1)
              else Some (block + sizeof_MemoryBlock, h1\<lparr>heap_start := block\<rparr>))
        else
          (case findFreeBlock span h of
             None \<Rightarrow> None
           | Some found \<Rightarrow>
               if found = 0 then
                 (let (block, h1) = requestSpace span h
                  in if block = 0 then Some (0, h1)
                     else (case last_block h1 (heap_start h1) of
                             None \<Rightarrow> None
                           | Some current \<Rightarrow>
                               Some (block + sizeof_MemoryBlock, set_next current block h1)))
               else Some (found + sizeof_MemoryBlock,
                          splitBlock found span (set_isFree found False h))))"

text \<open>\<open>free\<close>, \<open>realloc\<close> and \<open>calloc\<close>.\<close>

definition free :: "addr \<Rightarrow> heap \<Rightarrow> heap option" where
  "free ptr h =
     (if ptr = 0 then Some h
      else
        let block = ptr - sizeof_MemoryBlock;
            h1 = set_isFree block True h
        in (case mergeFreeBlocks block h1 of
              None \<Rightarrow> None
            | Some h2 \<Rightarrow> mergeBlocks block h2))"

definition realloc :: "addr \<Rightarrow> size_t \<Rightarrow> heap \<Rightarrow> (addr \<times> heap) option" where
  "realloc ptr sz h =
     (if ptr = 0 then malloc sz h
      else if sz = 0 then (case free ptr h of None \<Rightarrow> None | Some h1 \<Rightarrow> Some (0, h1))
      else
        let block = ptr - sizeof_MemoryBlock in
        if sz \<le> blk_size h block then Some (ptr, h)
        else
          (case malloc sz h of
             None \<Rightarrow> None
           | Some (newPtr, h1) \<Rightarrow>
               if newPtr = 0 then Some (0, h1)
               else
                 (case free ptr (memcpy_heap newPtr ptr (blk_size h1 block) h1) of
                    None \<Rightarrow> None
                  | Some h3 \<Rightarrow> Some (newPtr, h3))))"

definition calloc :: "size_t \<Rightarrow> size_t \<Rightarrow> heap \<Rightarrow> (addr \<times> heap) option" where
  "calloc num sz h =
     (let total_size = num * sz in
      if num \<noteq> 0 \<and> total_size div num \<noteq> sz then Some (0, h)
      else
        (case malloc total_size h of
           None \<Rightarrow> None
         | Some (ptr, h1) \<Rightarrow>
             if ptr = 0 then Some (0, h1)
             else Some (ptr, memset_heap ptr 0 total_size h1)))"

section \<open>main.cpp: the statistics walk\<close>

record stats =
  totalMemory :: size_t
  freeMemory :: size_t
  usedMemory :: size_t
  blockCount :: size_t
  freeBlockCount :: size_t

partial_function (option) memoryInfo_loop :: "heap \<Rightarrow> addr \<Rightarrow> stats \<Rightarrow> stats option" where
  "memoryInfo_loop h current st =
     (if current = 0 then Some st
      else
        let st1 = st\<lparr>blockCount := blockCount st + 1,
                     totalMemory := totalMemory st + blk_size h current\<rparr>;
            st2 = (if blk_isFree h current
                   then st1\<lparr>freeBlockCount := freeBlockCount st1 + 1,
                            freeMemory := freeMemory st1 + blk_size h current\<rparr>
                   else st1\<lparr>usedMemory := usedMemory st1 + blk_size h current\<rparr>)
        in memoryInfo_loop h (blk_next h current) st2)"

declare memoryInfo_loop.simps [code]

definition memoryInfo :: "heap \<Rightarrow> stats option" where
  "memoryInfo h =
     memoryInfo_loop h (heap_start h)
       \<lparr>totalMemory = 0, freeMemory = 0, usedMemory = 0, blockCount = 0, freeBlockCount = 0\<rparr>"

section \<open>Auxiliary notions for the proofs\<close>

text \<open>
  Two block headers are separate when the 24 bytes of one do not meet the 24 bytes of the
  other, read in wrap-around address arithmetic.
\<close>

definition sep :: "addr \<Rightarrow> addr \<Rightarrow> bool" where
  "sep b b' \<longleftrightarrow> 24 \<le> b' - b \<and> b' - b \<le> - 24"

text \<open>
  A concrete empty arena for the examples: zeroed memory, no block yet, the break at 4096,
  and an operating system that grants every request.
\<close>

definition arena0 :: heap where
  "arena0 = \<lparr>mem = (\<lambda>_. 0), heap_start = 0, brk = 4096, os_grants = (\<lambda>_ _. True)\<rparr>"

text \<open>
  The state \<open>requestSpace\<close> leaves behind when the break was at \<open>a\<close> and the request was
  granted: the break moved, the head adopted if there was none, and a fresh used header
  written at \<open>a\<close>.
\<close>

definition grown :: "addr \<Rightarrow> size_t \<Rightarrow> heap \<Rightarrow> heap" where
  "grown a span h =
     set_next a 0 (set_isFree a False (set_size a span
       (h\<lparr>brk := a + allocSize span,
          heap_start := (if heap_start h = 0 then a else heap_start h)\<rparr>)))"

text \<open>
  The chain of blocks as a list: \<open>chain h a bs\<close> says that following the \<open>next\<close> links
  from \<open>a\<close> visits exactly the block addresses \<open>bs\<close>, in this order, and then reaches
  \<open>nullptr\<close>.
\<close>

fun chain :: "heap \<Rightarrow> addr \<Rightarrow> addr list \<Rightarrow> bool" where
  "chain h a [] = (a = 0)"
| "chain h a (b # bs) = (a = b \<and> b \<noteq> 0 \<and> chain h (blk_next h b) bs)"

text \<open>The first block of a list that is free and large enough, \<open>nullptr\<close> if there is none.\<close>

definition first_fit :: "heap \<Rightarrow> size_t \<Rightarrow> addr list \<Rightarrow> addr" where
  "first_fit h sz bs =
     (case List.find (\<lambda>b. blk_isFree h b \<and> sz \<le> blk_size h b) bs of
        None \<Rightarrow> 0 | Some b \<Rightarrow> b)"

text \<open>
  The arena after a first \<open>malloc(8)\<close> on \<open>arena0\<close>, with an operating system that
  refuses any further growth.
\<close>

definition arena_full :: heap where
  "arena_full = (grown 4096 16 arena0)\<lparr>os_grants := (\<lambda>_ _. False)\<rparr>"

text \<open>A sequence of calls of the four entry points, run from a given state.\<close>

datatype call = Malloc size_t | Free addr | Realloc addr size_t | Calloc size_t size_t

fun exec :: "call \<Rightarrow> heap \<Rightarrow> (addr \<times> heap) option" where
  "exec (Malloc n) h = malloc n h"
| "exec (Free p) h = (case free p h of None \<Rightarrow> None | Some h' \<Rightarrow> Some (0, h'))"
| "exec (Realloc p n) h = realloc p n h"
| "exec (Calloc k n) h = calloc k n h"

fun run :: "call list \<Rightarrow> heap \<Rightarrow> (addr list \<times> heap) option" where
  "run [] h = Some ([], h)"
| "run (c # cs) h =
     (case exec c h of
        None \<Rightarrow> None
      | Some (p, h') \<Rightarrow>
          (case run cs h' of None \<Rightarrow> None | Some (ps, h'') \<Rightarrow> Some (p # ps, h'')))"

section \<open>Loads, stores and header fields\<close>

subsection \<open>Bytes and words in memory\<close>

lemma byte_ranges:
  "(n::nat) < 64 \<Longrightarrow>
     n < 8 \<or> 8 \<le> n \<and> n - 8 < 64 \<and> n - 8 < 8 \<or> 16 \<le> n \<and> n - 16 < 64 \<and> n - 16 < 8 \<or>
     24 \<le> n \<and> n - 24 < 64 \<and> n - 24 < 8 \<or> 32 \<le> n \<and> n - 32 < 64 \<and> n - 32 < 8 \<or>
     40 \<le> n \<and> n - 40 < 64 \<and> n - 40 < 8 \<or> 48 \<le> n \<and> n - 48 < 64 \<and> n - 48 < 8 \<or>
     56 \<le> n \<and> n - 56 < 64 \<and> n - 56 < 8"
  by presburger

lemma load64_store64_same: "load64 (store64 m a v) a = v"
proof (rule bit_word_eqI)
  fix n :: nat
  assume "n < LENGTH(64)"
  then have n: "n < 64" by simp
  show "bit (load64 (store64 m a v) a) n = bit v n"
  proof (cases "bit v n")
    case True
    then show ?thesis
      using n byte_ranges[OF n]
      by (simp add: load64_def store64_def bit_simps cong: conj_cong)
  next
    case False
    then show ?thesis
      using n by (simp add: load64_def store64_def bit_simps cong: conj_cong)
  qed
qed

lemma no_wrap_add:
  assumes "(d::64 word) \<le> - 8" "i < 8"
  shows "unat (d + i) = unat d + unat i"
proof -
  have 2: "unat d \<le> 2 ^ 64 - 8" using assms(1) by (simp add: word_le_nat_alt)
  have 3: "unat i < 8" using assms(2) by (simp add: word_less_nat_alt)
  have "unat d + unat i < 2 ^ LENGTH(64)" using 2 3 by simp
  then show ?thesis by (simp only: unat_add_lem)
qed

lemma off_ge:
  assumes "n \<le> (d::64 word)" "d \<le> - 8" "i < 8"
  shows "\<not> d + i < n"
proof -
  have "unat n \<le> unat d" using assms(1) by (simp add: word_le_nat_alt)
  then show ?thesis using no_wrap_add[OF assms(2,3)] by (simp add: word_less_nat_alt)
qed

lemma byte_outside:
  assumes "n \<le> a' - a" "a' - a \<le> - 8" "i < 8"
  shows "\<not> (a' + i) - a < (n::64 word)"
proof -
  have e: "(a' + i) - a = (a' - a) + i" by simp
  show ?thesis unfolding e by (rule off_ge[OF assms])
qed

lemma load64_cong:
  assumes "\<And>i. i < 8 \<Longrightarrow> m' (a + i) = m (a + i)"
  shows "load64 m' a = load64 m a"
proof -
  have "m' a = m a" using assms[of 0] by simp
  then show ?thesis by (simp add: load64_def assms)
qed

lemma load64_store64_other:
  assumes "8 \<le> a' - a" "a' - a \<le> - 8"
  shows "load64 (store64 m a v) a' = load64 m a'"
  by (rule load64_cong) (simp add: store64_def byte_outside[OF assms])

lemma load64_upd_other:
  assumes "8 \<le> a - a'"
  shows "load64 (m(a := c)) a' = load64 m a'"
proof (rule load64_cong)
  fix i :: "64 word"
  assume i: "i < 8"
  have "a \<noteq> a' + i"
  proof
    assume "a = a' + i"
    then have "a - a' = i" by simp
    then show False using assms i by simp
  qed
  then show "(m(a := c)) (a' + i) = m (a' + i)" by simp
qed

lemma load64_memcpy_out:
  assumes "n \<le> a - d" "a - d \<le> - 8"
  shows "load64 (memcpy m d s n) a = load64 m a"
  by (rule load64_cong) (simp add: memcpy_def byte_outside[OF assms])

lemma load64_memset_out:
  assumes "n \<le> a - d" "a - d \<le> - 8"
  shows "load64 (memset m d c n) a = load64 m a"
  by (rule load64_cong) (simp add: memset_def byte_outside[OF assms])

lemma load64_memcpy_in:
  assumes "unat (a - d) + 8 \<le> unat n"
  shows "load64 (memcpy m d s n) a = load64 m (s + (a - d))"
proof -
  have le: "a - d \<le> - 8"
  proof -
    have "unat n < 2 ^ 64" using unsigned_less[of n] by simp
    then have "unat (a - d) \<le> 2 ^ 64 - 8" using assms by simp
    then show ?thesis by (simp add: word_le_nat_alt)
  qed
  have b: "memcpy m d s n (a + i) = m (s + (a - d) + i)" if i: "i < 8" for i
  proof -
    have e: "(a + i) - d = (a - d) + i" by simp
    have "unat ((a - d) + i) = unat (a - d) + unat i" by (rule no_wrap_add[OF le i])
    moreover have "unat i < 8" using i by (simp add: word_less_nat_alt)
    ultimately have "(a - d) + i < n" using assms by (simp add: word_less_nat_alt)
    then show ?thesis by (simp add: memcpy_def e add.assoc)
  qed
  have "memcpy m d s n a = m (s + (a - d))" using b[of 0] by simp
  then show ?thesis by (simp add: load64_def b)
qed

lemma mid_unat: "(n \<le> (x::64 word) \<and> x \<le> - n) \<longleftrightarrow> (unat n \<le> unat x \<and> unat x \<le> unat (- n))"
  by (simp add: word_le_nat_alt)

lemma shift_up:
  assumes "24 \<le> (d::64 word)" "d \<le> - 24" "e = 8 \<or> e = 16"
  shows "8 \<le> d + e \<and> d + e \<le> - 8"
proof -
  have 1: "24 \<le> unat d" using assms(1) by (simp add: word_le_nat_alt)
  have 2: "unat d \<le> 2 ^ 64 - 24" using assms(2) by (simp add: word_le_nat_alt)
  have 3: "unat e = 8 \<or> unat e = 16" using assms(3) by auto
  have "unat d + unat e < 2 ^ LENGTH(64)" using 2 3 by auto
  then have "unat (d + e) = unat d + unat e" by (simp only: unat_add_lem)
  then show ?thesis using 1 2 3 by (auto simp add: word_le_nat_alt)
qed

lemma shift_down:
  assumes "24 \<le> (d::64 word)" "d \<le> - 24" "e = 8 \<or> e = 16"
  shows "8 \<le> d - e \<and> d - e \<le> - 8"
proof -
  have 1: "24 \<le> unat d" using assms(1) by (simp add: word_le_nat_alt)
  have 2: "unat d \<le> 2 ^ 64 - 24" using assms(2) by (simp add: word_le_nat_alt)
  have 3: "unat e = 8 \<or> unat e = 16" using assms(3) by auto
  have "e \<le> d" using 1 3 by (auto simp add: word_le_nat_alt)
  then have "unat (d - e) = unat d - unat e" by (rule unat_sub)
  then show ?thesis using 1 2 3 by (auto simp add: word_le_nat_alt)
qed

lemma shift_zero:
  assumes "24 \<le> (d::64 word)" "d \<le> - 24"
  shows "8 \<le> d \<and> d \<le> - 8"
proof -
  have 1: "24 \<le> unat d" using assms(1) by (simp add: word_le_nat_alt)
  have 2: "unat d \<le> 2 ^ 64 - 24" using assms(2) by (simp add: word_le_nat_alt)
  show ?thesis using 1 2 by (simp add: word_le_nat_alt)
qed

lemma unat_neg:
  assumes "(d::64 word) \<noteq> 0"
  shows "unat (- d) = 2 ^ 64 - unat d"
proof -
  have p: "0 < unat d" using assms by (simp add: unat_gt_0)
  have "d \<le> - 1" by simp
  then have a: "unat (- 1 - d) = unat (- 1 :: 64 word) - unat d" by (rule unat_sub)
  have m: "unat (- 1 :: 64 word) = 2 ^ 64 - 1"
    by (simp add: unsigned_minus_1_eq_mask mask_eq_exp_minus_1)
  have "unat (- 1 - d) + unat (1 :: 64 word) < 2 ^ LENGTH(64)" using a m p by simp
  then have "unat ((- 1 - d) + 1) = unat (- 1 - d) + unat (1::64 word)" by (simp only: unat_add_lem)
  moreover have "(- 1 - d) + 1 = - d" by simp
  moreover have "unat d < 2 ^ 64" using unsigned_less[of d] by simp
  ultimately show ?thesis using a m p by (simp; arith)
qed

lemma sep_sym: "sep b b' \<Longrightarrow> sep b' b"
proof -
  assume s: "sep b b'"
  let ?d = "b' - b"
  have 1: "24 \<le> unat ?d" using s by (simp add: sep_def word_le_nat_alt)
  have 2: "unat ?d \<le> 2 ^ 64 - 24" using s by (simp add: sep_def word_le_nat_alt)
  have nz: "?d \<noteq> 0" using 1 by auto
  have e: "b - b' = - ?d" by simp
  have "unat (- ?d) = 2 ^ 64 - unat ?d" using nz by (rule unat_neg)
  then have "24 \<le> unat (- ?d) \<and> unat (- ?d) \<le> 2 ^ 64 - 24" using 1 2 by (simp; arith)
  then show ?thesis unfolding sep_def e by (simp add: word_le_nat_alt)
qed

lemma slot_far:
  assumes "sep b' b" "k = 0 \<or> k = 8 \<or> k = 16" "l = 0 \<or> l = 8 \<or> l = 16"
  shows "8 \<le> (b + l) - (b' + k) \<and> (b + l) - (b' + k) \<le> - 8"
proof -
  have D: "24 \<le> b - b'" "b - b' \<le> - 24" using assms(1) by (simp_all add: sep_def)
  note su = shift_up[OF D] and sd = shift_down[OF D] and sz = shift_zero[OF D]
  have e: "(b + l) - (b' + k) = (b - b') + l - k" by simp
  show ?thesis
    unfolding e using assms(2,3) su[of 8] su[of 16] sd[of 8] sd[of 16] sz
    by (elim disjE) (simp_all add: add.commute)
qed

lemma sep_neq: "sep b' b \<Longrightarrow> b \<noteq> b'"
  by (auto simp add: sep_def)

lemma frame_simps [simp]:
  "heap_start (set_size b v h) = heap_start h" "brk (set_size b v h) = brk h"
  "os_grants (set_size b v h) = os_grants h"
  "heap_start (set_isFree b f h) = heap_start h" "brk (set_isFree b f h) = brk h"
  "os_grants (set_isFree b f h) = os_grants h"
  "heap_start (set_next b n h) = heap_start h" "brk (set_next b n h) = brk h"
  "os_grants (set_next b n h) = os_grants h"
  by (simp_all add: set_size_def set_isFree_def set_next_def)

lemma same_block [simp]:
  "blk_size (set_size b v h) b = v"
  "blk_size (set_isFree b f h) b = blk_size h b"
  "blk_size (set_next b n h) b = blk_size h b"
  "blk_isFree (set_size b v h) b = blk_isFree h b"
  "blk_isFree (set_isFree b f h) b = f"
  "blk_isFree (set_next b n h) b = blk_isFree h b"
  "blk_next (set_size b v h) b = blk_next h b"
  "blk_next (set_isFree b f h) b = blk_next h b"
  "blk_next (set_next b n h) b = n"
proof -
  show "blk_size (set_size b v h) b = v" "blk_next (set_next b n h) b = n"
    by (simp_all add: blk_size_def blk_next_def set_size_def set_next_def load64_store64_same)
  show "blk_size (set_isFree b f h) b = blk_size h b" "blk_next (set_isFree b f h) b = blk_next h b"
    by (simp_all add: blk_size_def blk_next_def set_isFree_def load64_upd_other)
  show "blk_size (set_next b n h) b = blk_size h b" "blk_next (set_size b v h) b = blk_next h b"
    by (simp_all add: blk_size_def blk_next_def set_size_def set_next_def load64_store64_other)
  show "blk_isFree (set_size b v h) b = blk_isFree h b" "blk_isFree (set_isFree b f h) b = f"
    "blk_isFree (set_next b n h) b = blk_isFree h b"
    by (simp_all add: blk_isFree_def set_size_def set_isFree_def set_next_def store64_def)
qed

lemma other_block:
  assumes "sep b' b"
  shows "blk_size (set_size b' v h) b = blk_size h b"
    and "blk_size (set_isFree b' f h) b = blk_size h b"
    and "blk_size (set_next b' n h) b = blk_size h b"
    and "blk_isFree (set_size b' v h) b = blk_isFree h b"
    and "blk_isFree (set_isFree b' f h) b = blk_isFree h b"
    and "blk_isFree (set_next b' n h) b = blk_isFree h b"
    and "blk_next (set_size b' v h) b = blk_next h b"
    and "blk_next (set_isFree b' f h) b = blk_next h b"
    and "blk_next (set_next b' n h) b = blk_next h b"
proof -
  note f = slot_far[OF assms]
  note g = slot_far[OF sep_sym[OF assms]]
  have ne: "b \<noteq> b'" using assms by (rule sep_neq)
  show "blk_size (set_size b' v h) b = blk_size h b"
    using f[of 0 0] by (simp add: blk_size_def set_size_def load64_store64_other)
  show "blk_size (set_isFree b' f h) b = blk_size h b"
    using g[of 0 8] by (simp add: blk_size_def set_isFree_def load64_upd_other)
  show "blk_size (set_next b' n h) b = blk_size h b"
    using f[of 16 0] by (simp add: blk_size_def set_next_def load64_store64_other)
  show "blk_isFree (set_size b' v h) b = blk_isFree h b"
    using f[of 0 8] by (simp add: blk_isFree_def set_size_def store64_def not_less [symmetric])
  show "blk_isFree (set_isFree b' f h) b = blk_isFree h b"
    using ne by (simp add: blk_isFree_def set_isFree_def)
  show "blk_isFree (set_next b' n h) b = blk_isFree h b"
    using f[of 16 8] by (simp add: blk_isFree_def set_next_def store64_def not_less [symmetric])
  show "blk_next (set_size b' v h) b = blk_next h b"
    using f[of 0 16] by (simp add: blk_next_def set_size_def load64_store64_other)
  show "blk_next (set_isFree b' f h) b = blk_next h b"
    using g[of 16 8] by (simp add: blk_next_def set_isFree_def load64_upd_other)
  show "blk_next (set_next b' n h) b = blk_next h b"
    using f[of 16 16] by (simp add: blk_next_def set_next_def load64_store64_other)
qed

subsection \<open>Alignment\<close>

lemma len64: "LENGTH(64) = 64"
  by simp

lemma align_unat: "unat (align n) = 8 * (unat (n + 7) div 8)"
proof -
  have m: "(7 :: 64 word) = mask 3" by (simp add: mask_eq_exp_minus_1)
  have a: "align n = (n + 7) AND NOT 7"
    by (simp add: align_def sizeof_word_t_def add.commute)
  have "(n + 7) AND NOT 7 = push_bit 3 (drop_bit 3 (n + 7))"
    unfolding m by (rule bit_word_eqI) (auto simp add: bit_simps)
  then have "unat (align n) = unat (push_bit 3 (drop_bit 3 (n + 7)))"
    by (simp only: a)
  also have "\<dots> = take_bit 64 (push_bit 3 (drop_bit 3 (unat (n + 7))))"
    by (simp only: unsigned_push_bit_eq unat_drop_bit_eq len64)
  also have "\<dots> = take_bit 64 (8 * (unat (n + 7) div 8))"
    by (simp add: push_bit_eq_mult drop_bit_eq_div mult.commute)
  also have "\<dots> = 8 * (unat (n + 7) div 8)"
  proof -
    have "unat (n + 7) < 2 ^ 64" using unsigned_less[of "n + 7"] by simp
    then have "8 * (unat (n + 7) div 8) < 2 ^ 64" by simp
    then show ?thesis by (simp add: take_bit_nat_eq_self)
  qed
  finally show ?thesis .
qed

lemma split_sep:
  assumes "unat sz + 48 \<le> 2 ^ 64"
  shows "sep block (block + 24 + sz)"
proof -
  have u: "unat (24 + sz) = 24 + unat sz"
  proof -
    have "unat (24 :: 64 word) + unat sz < 2 ^ LENGTH(64)" using assms by simp
    then show ?thesis by (simp only: unat_add_lem) simp
  qed
  have e: "block + 24 + sz - block = 24 + sz" by simp
  show ?thesis unfolding sep_def e using u assms by (simp add: word_le_nat_alt)
qed

subsection \<open>The empty arena and record updates\<close>

lemma load64_const0 [simp]: "load64 (\<lambda>_. 0) a = 0"
  by (simp add: load64_def)

lemma arena0_simps [simp]:
  "heap_start arena0 = 0" "brk arena0 = 4096" "os_grants arena0 = (\<lambda>_ _. True)"
  "blk_size arena0 b = 0" "blk_next arena0 b = 0" "\<not> blk_isFree arena0 b"
  by (simp_all add: arena0_def blk_size_def blk_next_def blk_isFree_def)

lemma field_heap_start_upd [simp]:
  "blk_size (h\<lparr>heap_start := x\<rparr>) b = blk_size h b"
  "blk_isFree (h\<lparr>heap_start := x\<rparr>) b = blk_isFree h b"
  "blk_next (h\<lparr>heap_start := x\<rparr>) b = blk_next h b"
  "blk_size (h\<lparr>brk := x\<rparr>) b = blk_size h b"
  "blk_isFree (h\<lparr>brk := x\<rparr>) b = blk_isFree h b"
  "blk_next (h\<lparr>brk := x\<rparr>) b = blk_next h b"
  "blk_size (h\<lparr>os_grants := g\<rparr>) b = blk_size h b"
  "blk_isFree (h\<lparr>os_grants := g\<rparr>) b = blk_isFree h b"
  "blk_next (h\<lparr>os_grants := g\<rparr>) b = blk_next h b"
  by (simp_all add: blk_size_def blk_isFree_def blk_next_def)

lemma set_field_commute_upd [simp]:
  "set_size b v (h\<lparr>heap_start := x\<rparr>) = (set_size b v h)\<lparr>heap_start := x\<rparr>"
  "set_isFree b f (h\<lparr>heap_start := x\<rparr>) = (set_isFree b f h)\<lparr>heap_start := x\<rparr>"
  "set_next b n (h\<lparr>heap_start := x\<rparr>) = (set_next b n h)\<lparr>heap_start := x\<rparr>"
  "set_size b v (h\<lparr>brk := y\<rparr>) = (set_size b v h)\<lparr>brk := y\<rparr>"
  "set_isFree b f (h\<lparr>brk := y\<rparr>) = (set_isFree b f h)\<lparr>brk := y\<rparr>"
  "set_next b n (h\<lparr>brk := y\<rparr>) = (set_next b n h)\<lparr>brk := y\<rparr>"
  by (simp_all add: set_size_def set_isFree_def set_next_def)

subsection \<open>Arena growth\<close>

lemma requestSpace_granted:
  assumes "fst (sbrk (allocSize span) h) \<noteq> - 1"
  shows "requestSpace span h = (brk h, grown (brk h) span h)"
  using assms
  by (auto simp add: requestSpace_def sbrk_def Let_def grown_def set_size_def set_isFree_def
      set_next_def split: if_splits)

lemma requestSpace_refused:
  assumes "sbrk (allocSize span) h = (- 1, h)"
  shows "requestSpace span h = (0, h)"
  using assms by (simp add: requestSpace_def Let_def)

lemma requestSpace_cases:
  "requestSpace span h = (brk h, grown (brk h) span h) \<and> fst (sbrk (allocSize span) h) \<noteq> - 1 \<or>
   fst (requestSpace span h) = 0"
proof (cases "fst (sbrk (allocSize span) h) = - 1")
  case True
  then show ?thesis by (simp add: requestSpace_def Let_def split_beta)
next
  case False
  then show ?thesis using requestSpace_granted[OF False] by simp
qed

lemma grown_simps [simp]:
  "heap_start (grown a span h) = (if heap_start h = 0 then a else heap_start h)"
  "brk (grown a span h) = a + allocSize span"
  "os_grants (grown a span h) = os_grants h"
  "blk_size (grown a span h) a = span"
  "\<not> blk_isFree (grown a span h) a"
  "blk_next (grown a span h) a = 0"
  by (simp_all add: grown_def)

lemma grown_other:
  assumes "sep a b"
  shows "blk_size (grown a span h) b = blk_size h b"
    "blk_isFree (grown a span h) b = blk_isFree h b"
    "blk_next (grown a span h) b = blk_next h b"
  by (simp_all add: grown_def other_block[OF assms])

lemma malloc_first:
  assumes "heap_start h = 0" "malloc sz h = Some (p, h')" "p \<noteq> 0"
  shows "brk h \<noteq> 0 \<and> p = brk h + 24 \<and> h' = grown (brk h) (align (sizeof_pointer + sz)) h"
proof -
  have nz: "sz \<noteq> 0" using assms(2,3) by (auto simp add: malloc_def)
  show ?thesis
    using requestSpace_cases[of "align (sizeof_pointer + sz)" h] assms nz
    by (auto simp add: malloc_def Let_def sizeof_MemoryBlock_def grown_def split: prod.splits if_splits)
qed

subsection \<open>Walking the chain\<close>

lemma findFree_from_chain:
  "chain h a bs \<Longrightarrow> findFree_from h sz a = Some (first_fit h sz bs)"
proof (induction bs arbitrary: a)
  case Nil
  then show ?case by (simp add: findFree_from.simps first_fit_def)
next
  case (Cons b bs)
  then have a: "a = b" "b \<noteq> 0" "chain h (blk_next h b) bs" by simp_all
  show ?case
  proof (cases "blk_isFree h b \<and> sz \<le> blk_size h b")
    case True
    then show ?thesis using a by (subst findFree_from.simps) (simp add: first_fit_def)
  next
    case False
    then show ?thesis using a Cons.IH[OF a(3)]
      by (subst findFree_from.simps) (auto simp add: first_fit_def)
  qed
qed

lemma last_block_chain:
  "chain h a bs \<Longrightarrow> bs \<noteq> [] \<Longrightarrow> last_block h a = Some (last bs)"
proof (induction bs arbitrary: a)
  case Nil
  then show ?case by simp
next
  case (Cons b bs)
  then have a: "a = b" "b \<noteq> 0" "chain h (blk_next h b) bs" by simp_all
  show ?case
  proof (cases bs)
    case Nil
    then show ?thesis using a by (subst last_block.simps) simp
  next
    case (Cons c cs)
    then have "blk_next h b \<noteq> 0" using a(3) by simp
    then show ?thesis using a Cons.IH[OF a(3)] Cons
      by (subst last_block.simps) simp
  qed
qed

lemma mergePrev_chain:
  "chain h a bs \<Longrightarrow>
   mergePrev h block a =
     Some (case List.find (\<lambda>c. blk_next h c = block \<and> blk_isFree h c) bs of
             None \<Rightarrow> h | Some c \<Rightarrow> absorb c block h)"
proof (induction bs arbitrary: a)
  case Nil
  then show ?case by (simp add: mergePrev.simps)
next
  case (Cons b bs)
  then have a: "a = b" "b \<noteq> 0" "chain h (blk_next h b) bs" by simp_all
  show ?case using a Cons.IH[OF a(3)]
    by (subst mergePrev.simps) simp
qed

lemma memoryInfo_loop_chain:
  "chain h a bs \<Longrightarrow>
   \<exists>st'. memoryInfo_loop h a st = Some st' \<and>
         blockCount st' = blockCount st + of_nat (length bs) \<and>
         freeBlockCount st' = freeBlockCount st + of_nat (length (filter (blk_isFree h) bs))"
proof (induction bs arbitrary: a st)
  case Nil
  then show ?case by (simp add: memoryInfo_loop.simps)
next
  case (Cons b bs)
  then have a: "a = b" "b \<noteq> 0" "chain h (blk_next h b) bs" by simp_all
  let ?st1 = "st\<lparr>blockCount := blockCount st + 1,
                    totalMemory := totalMemory st + blk_size h b\<rparr>"
  let ?st2 = "if blk_isFree h b
              then ?st1\<lparr>freeBlockCount := freeBlockCount ?st1 + 1,
                         freeMemory := freeMemory ?st1 + blk_size h b\<rparr>
              else ?st1\<lparr>usedMemory := usedMemory ?st1 + blk_size h b\<rparr>"
  have u: "memoryInfo_loop h a st = memoryInfo_loop h (blk_next h b) ?st2"
    using a by (subst memoryInfo_loop.simps) (simp add: Let_def)
  obtain st' where s: "memoryInfo_loop h (blk_next h b) ?st2 = Some st'"
    "blockCount st' = blockCount ?st2 + of_nat (length bs)"
    "freeBlockCount st' = freeBlockCount ?st2 + of_nat (length (filter (blk_isFree h) bs))"
    using Cons.IH[OF a(3), of ?st2] by blast
  show ?case using u s by (cases "blk_isFree h b") simp_all
qed

lemma chain_cong:
  "(\<And>b. b \<in> set bs \<Longrightarrow> blk_next h' b = blk_next h b) \<Longrightarrow> chain h' a bs = chain h a bs"
  by (induction bs arbitrary: a) simp_all

lemma span4: "align (sizeof_pointer + 4) = 16"
  by (simp add: align_def sizeof_pointer_def sizeof_word_t_def)

lemma mergeBlocks_loop_stop:
  "blk_next h block = 0 \<or> \<not> blk_isFree h (blk_next h block) \<Longrightarrow> mergeBlocks_loop h block = Some h"
  by (subst mergeBlocks_loop.simps) auto

lemma malloc_arena0:
  assumes "sz \<noteq> 0"
  shows "malloc sz arena0 = Some (4120, grown 4096 (align (sizeof_pointer + sz)) arena0)"
proof -
  have g: "fst (sbrk (allocSize (align (sizeof_pointer + sz))) arena0) \<noteq> - 1"
    by (simp add: sbrk_def)
  show ?thesis
    using assms requestSpace_granted[OF g]
    by (simp add: malloc_def Let_def sizeof_MemoryBlock_def grown_def)
qed

lemma arena_full_simps [simp]:
  "heap_start arena_full = 4096" "brk arena_full = 4096 + allocSize 16"
  "os_grants arena_full = (\<lambda>_ _. False)"
  "blk_size arena_full 4096 = 16" "\<not> blk_isFree arena_full 4096" "blk_next arena_full 4096 = 0"
  by (simp_all add: arena_full_def)

lemma align_pointer_plus:
  assumes "unat sz + 15 < 2 ^ 64"
  shows "unat (align (sizeof_pointer + sz)) = 8 * ((unat sz + 15) div 8)"
proof -
  have "unat sz + unat (15 :: 64 word) < 2 ^ LENGTH(64)" using assms by simp
  then have u: "unat (sz + 15) = unat sz + unat (15 :: 64 word)" by (simp only: unat_add_lem)
  have e: "sizeof_pointer + sz + 7 = sz + 15" by (simp add: sizeof_pointer_def)
  show ?thesis unfolding align_unat e u by simp
qed

lemma span8: "align (sizeof_pointer + 8) = 16"
  by (simp add: align_def sizeof_pointer_def sizeof_word_t_def)

lemma allocSize16: "allocSize 16 = 32"
  by (simp add: allocSize_def sizeof_MemoryBlock_def sizeof_size_t_def)

lemma sep_4128_4096: "sep 4128 4096" "sep 4096 4128"
  by (simp_all add: sep_def)

subsection \<open>Allocation and release, step by step\<close>

lemma chain_nonempty: "chain h a bs \<Longrightarrow> a \<noteq> 0 \<Longrightarrow> bs \<noteq> []"
  by (cases bs) simp_all

lemma chain_grown:
  assumes "chain h a bs" "\<And>c. c \<in> set bs \<Longrightarrow> sep n c"
  shows "chain (grown n span h) a bs"
proof -
  have "chain (grown n span h) a bs = chain h a bs"
    by (rule chain_cong) (simp add: grown_other assms(2))
  then show ?thesis using assms(1) by simp
qed

lemma malloc_miss:
  assumes "heap_start h \<noteq> 0" "chain h (heap_start h) bs"
    and "first_fit h (align (sizeof_pointer + sz)) bs = 0"
    and "\<And>c. c \<in> set bs \<Longrightarrow> sep (brk h) c"
    and "malloc sz h = Some (p, h')" "p \<noteq> 0"
  shows "brk h \<noteq> 0 \<and> p = brk h + 24 \<and>
         h' = set_next (last bs) (brk h) (grown (brk h) (align (sizeof_pointer + sz)) h)"
proof -
  let ?span = "align (sizeof_pointer + sz)"
  have nz: "sz \<noteq> 0" using assms(5,6) by (auto simp add: malloc_def)
  have ff: "findFreeBlock ?span h = Some 0"
    using findFree_from_chain[OF assms(2)] assms(3) by (simp add: findFreeBlock_def)
  have ne: "bs \<noteq> []" using assms(1,2) by (rule chain_nonempty[rotated])
  have lb: "last_block (grown (brk h) ?span h) (heap_start h) = Some (last bs)"
    using last_block_chain[OF chain_grown[OF assms(2)] ne] assms(4) by simp
  show ?thesis
    using requestSpace_cases[of ?span h] assms(1,5,6) nz ff lb
    by (auto simp add: malloc_def Let_def sizeof_MemoryBlock_def split: prod.splits if_splits)
qed

lemma sep_offsets:
  "sep b (b + 32)" "sep (b + 32) b" "sep b (b + 64)" "sep (b + 64) b"
  "sep (b + 32) (b + 64)" "sep (b + 64) (b + 32)"
  by (simp_all add: sep_def)

lemma free_unfold:
  assumes "ptr \<noteq> 0" "ptr - sizeof_MemoryBlock = blk"
  shows "free ptr h =
           (case mergeFreeBlocks blk (set_isFree blk True h) of
              None \<Rightarrow> None | Some h2 \<Rightarrow> mergeBlocks blk h2)"
  using assms by (simp add: free_def Let_def)

lemma mergeFreeBlocks_no_next:
  assumes "blk_next h block = 0 \<or> \<not> blk_isFree h (blk_next h block)"
  shows "mergeFreeBlocks block h = mergePrev h block (heap_start h)"
  using assms by (auto simp add: mergeFreeBlocks_def)

lemma mergeFreeBlocks_next:
  assumes "blk_next h block \<noteq> 0" "blk_isFree h (blk_next h block)"
  shows "mergeFreeBlocks block h =
           mergePrev (absorb block (blk_next h block) h) block
             (heap_start (absorb block (blk_next h block) h))"
  using assms by (simp add: mergeFreeBlocks_def absorb_def Let_def)

lemma mergeBlocks_stop:
  assumes "block = 0 \<or> \<not> blk_isFree h block \<or> blk_next h block = 0 \<or>
           \<not> blk_isFree h (blk_next h block)"
  shows "mergeBlocks block h = Some h"
  using assms by (auto simp add: mergeBlocks_def mergeBlocks_loop_stop)

lemma malloc_first_granted:
  assumes "sz \<noteq> 0" "heap_start h = 0" "brk h \<noteq> 0"
    and "fst (sbrk (allocSize (align (sizeof_pointer + sz))) h) \<noteq> - 1"
  shows "malloc sz h = Some (brk h + 24, grown (brk h) (align (sizeof_pointer + sz)) h)"
  using assms(1,2,3) requestSpace_granted[OF assms(4)]
  by (simp add: malloc_def Let_def sizeof_MemoryBlock_def grown_def)

lemma malloc_miss_granted:
  assumes "sz \<noteq> 0" "heap_start h \<noteq> 0" "chain h (heap_start h) bs"
    and "first_fit h (align (sizeof_pointer + sz)) bs = 0"
    and "\<forall>c\<in>set bs. sep (brk h) c"
    and "brk h \<noteq> 0"
    and "fst (sbrk (allocSize (align (sizeof_pointer + sz))) h) \<noteq> - 1"
  shows "malloc sz h = Some (brk h + 24,
           set_next (last bs) (brk h) (grown (brk h) (align (sizeof_pointer + sz)) h))"
proof -
  let ?span = "align (sizeof_pointer + sz)"
  have ff: "findFreeBlock ?span h = Some 0"
    using findFree_from_chain[OF assms(3)] assms(4) by (simp add: findFreeBlock_def)
  have ne: "bs \<noteq> []" using assms(2,3) by (rule chain_nonempty[rotated])
  have lb: "last_block (grown (brk h) ?span h) (heap_start h) = Some (last bs)"
    using last_block_chain[OF chain_grown[OF assms(3)] ne] assms(5) by simp
  show ?thesis
    using requestSpace_granted[OF assms(7)] assms(1,2,6) ff lb
    by (simp add: malloc_def Let_def sizeof_MemoryBlock_def)
qed

lemma malloc_hit:
  assumes "sz \<noteq> 0" "heap_start h \<noteq> 0" "chain h (heap_start h) bs"
    and "first_fit h (align (sizeof_pointer + sz)) bs = f" "f \<noteq> 0"
  shows "malloc sz h = Some (f + 24,
           splitBlock f (align (sizeof_pointer + sz)) (set_isFree f False h))"
proof -
  have ff: "findFreeBlock (align (sizeof_pointer + sz)) h = Some f"
    using findFree_from_chain[OF assms(3)] assms(4) by (simp add: findFreeBlock_def)
  show ?thesis using assms(1,2,5) ff by (simp add: malloc_def Let_def sizeof_MemoryBlock_def)
qed

lemma granted_always:
  "os_grants h = (\<lambda>_ _. True) \<Longrightarrow> brk h \<noteq> - 1 \<Longrightarrow> fst (sbrk inc h) \<noteq> - 1"
  by (simp add: sbrk_def)

subsection \<open>Copying and filling bytes\<close>

lemma copy_frame [simp]:
  "heap_start (memcpy_heap d s n h) = heap_start h" "brk (memcpy_heap d s n h) = brk h"
  "os_grants (memcpy_heap d s n h) = os_grants h"
  "heap_start (memset_heap d c n h) = heap_start h" "brk (memset_heap d c n h) = brk h"
  "os_grants (memset_heap d c n h) = os_grants h"
  by (simp_all add: memcpy_heap_def memset_heap_def)

lemma blk_size_memcpy_in:
  "unat (b - d) + 8 \<le> unat n \<Longrightarrow> blk_size (memcpy_heap d s n h) b = blk_size h (s + (b - d))"
  by (simp add: blk_size_def memcpy_heap_def load64_memcpy_in)

lemma blk_size_memcpy_out:
  "n \<le> b - d \<Longrightarrow> b - d \<le> - 8 \<Longrightarrow> blk_size (memcpy_heap d s n h) b = blk_size h b"
  by (simp add: blk_size_def memcpy_heap_def load64_memcpy_out)

lemma blk_next_memcpy_in:
  assumes "unat (b + 16 - d) + 8 \<le> unat n"
  shows "blk_next (memcpy_heap d s n h) b = blk_next h (s + (b - d))"
proof -
  have "load64 (memcpy (mem h) d s n) (b + 16) = load64 (mem h) (s + (b + 16 - d))"
    by (rule load64_memcpy_in[OF assms])
  also have "\<dots> = load64 (mem h) (s + (b - d) + 16)" by (simp add: algebra_simps)
  finally have e: "load64 (memcpy (mem h) d s n) (b + 16) = load64 (mem h) (s + (b - d) + 16)" .
  show ?thesis by (simp add: blk_next_def memcpy_heap_def e)
qed

lemma blk_next_memcpy_out:
  "n \<le> b + 16 - d \<Longrightarrow> b + 16 - d \<le> - 8 \<Longrightarrow>
   blk_next (memcpy_heap d s n h) b = blk_next h b"
  by (simp add: blk_next_def memcpy_heap_def load64_memcpy_out)

lemma blk_isFree_memcpy_in:
  assumes "b + 8 - d < n"
  shows "blk_isFree (memcpy_heap d s n h) b = blk_isFree h (s + (b - d))"
proof -
  have "memcpy (mem h) d s n (b + 8) = mem h (s + (b + 8 - d))"
    using assms by (simp add: memcpy_def)
  also have "\<dots> = mem h (s + (b - d) + 8)" by (simp add: algebra_simps)
  finally have e: "memcpy (mem h) d s n (b + 8) = mem h (s + (b - d) + 8)" .
  show ?thesis by (simp add: blk_isFree_def memcpy_heap_def e)
qed

lemma blk_isFree_memcpy_out:
  "\<not> b + 8 - d < n \<Longrightarrow> blk_isFree (memcpy_heap d s n h) b = blk_isFree h b"
  by (simp add: blk_isFree_def memcpy_heap_def memcpy_def)

lemma blk_size_memset_out:
  "n \<le> b - d \<Longrightarrow> b - d \<le> - 8 \<Longrightarrow> blk_size (memset_heap d c n h) b = blk_size h b"
  by (simp add: blk_size_def memset_heap_def load64_memset_out)

lemma blk_next_memset_out:
  "n \<le> b + 16 - d \<Longrightarrow> b + 16 - d \<le> - 8 \<Longrightarrow>
   blk_next (memset_heap d c n h) b = blk_next h b"
  by (simp add: blk_next_def memset_heap_def load64_memset_out)

lemma blk_isFree_memset_out:
  "\<not> b + 8 - d < n \<Longrightarrow> blk_isFree (memset_heap d c n h) b = blk_isFree h b"
  by (simp add: blk_isFree_def memset_heap_def memset_def)

lemma realloc_fits:
  assumes "ptr \<noteq> 0" "sz \<noteq> 0" "sz \<le> blk_size h (ptr - sizeof_MemoryBlock)"
  shows "realloc ptr sz h = Some (ptr, h)"
  using assms by (simp add: realloc_def Let_def)

lemma realloc_moves:
  assumes "ptr \<noteq> 0" "sz \<noteq> 0" "ptr - sizeof_MemoryBlock = blk" "blk_size h blk < sz"
    and "malloc sz h = Some (q, h1)" "q \<noteq> 0"
  shows "realloc ptr sz h =
           (case free ptr (memcpy_heap q ptr (blk_size h1 blk) h1) of
              None \<Rightarrow> None | Some h3 \<Rightarrow> Some (q, h3))"
  using assms by (simp add: realloc_def Let_def not_le [symmetric])

lemma span24: "align (sizeof_pointer + 24) = 32"
  by (simp add: align_def sizeof_pointer_def sizeof_word_t_def)

lemma allocSize32: "allocSize 32 = 48"
  by (simp add: allocSize_def sizeof_MemoryBlock_def sizeof_size_t_def)

subsection \<open>Constants of the long example\<close>

lemma span_8: "align (sizeof_pointer + 8) = 16"
  by (simp add: align_def sizeof_pointer_def sizeof_word_t_def)

lemma span_40: "align (sizeof_pointer + 40) = 48"
  by (simp add: align_def sizeof_pointer_def sizeof_word_t_def)

lemma span_112: "align (sizeof_pointer + 112) = 120"
  by (simp add: align_def sizeof_pointer_def sizeof_word_t_def)

lemma span_121: "align (sizeof_pointer + 121) = 136"
  by (simp add: align_def sizeof_pointer_def sizeof_word_t_def)

lemma alloc_sizes: "allocSize 16 = 32" "allocSize 48 = 64"
  by (simp_all add: allocSize_def sizeof_MemoryBlock_def sizeof_size_t_def)

text \<open>The nine block headers of the example are pairwise separate.\<close>

lemma sep_blocks:
  "sep 4096 4128" "sep 4096 4160" "sep 4096 4192" "sep 4096 4224"
  "sep 4096 4256" "sep 4096 4288" "sep 4096 4352" "sep 4096 4416"
  "sep 4128 4096" "sep 4128 4160" "sep 4128 4192" "sep 4128 4224"
  "sep 4128 4256" "sep 4128 4288" "sep 4128 4352" "sep 4128 4416"
  "sep 4160 4096" "sep 4160 4128" "sep 4160 4192" "sep 4160 4224"
  "sep 4160 4256" "sep 4160 4288" "sep 4160 4352" "sep 4160 4416"
  "sep 4192 4096" "sep 4192 4128" "sep 4192 4160" "sep 4192 4224"
  "sep 4192 4256" "sep 4192 4288" "sep 4192 4352" "sep 4192 4416"
  "sep 4224 4096" "sep 4224 4128" "sep 4224 4160" "sep 4224 4192"
  "sep 4224 4256" "sep 4224 4288" "sep 4224 4352" "sep 4224 4416"
  "sep 4256 4096" "sep 4256 4128" "sep 4256 4160" "sep 4256 4192"
  "sep 4256 4224" "sep 4256 4288" "sep 4256 4352" "sep 4256 4416"
  "sep 4288 4096" "sep 4288 4128" "sep 4288 4160" "sep 4288 4192"
  "sep 4288 4224" "sep 4288 4256" "sep 4288 4352" "sep 4288 4416"
  "sep 4352 4096" "sep 4352 4128" "sep 4352 4160" "sep 4352 4192"
  "sep 4352 4224" "sep 4352 4256" "sep 4352 4288" "sep 4352 4416"
  "sep 4416 4096" "sep 4416 4128" "sep 4416 4160" "sep 4416 4192"
  "sep 4416 4224" "sep 4416 4256" "sep 4416 4288" "sep 4416 4352"
  by (simp_all add: sep_def)

subsection \<open>Where the next header goes\<close>

text \<open>
  After a granted \<open>requestSpace(span)\<close> at the break \<open>a\<close> the new break, where the next
  header will be written, lies 8 bytes before the end of the \<open>span\<close> payload bytes that the
  new block's capacity field announces: the payload starts at \<open>a + 24\<close> and the break is at
  \<open>a + 24 + (span - 8)\<close>.
\<close>

lemma next_header_inside_payload:
  "blk_size (grown a span h) a = span \<and>
   brk (grown a span h) = (a + sizeof_MemoryBlock) + (span - 8)"
  by (simp add: allocSize_def sizeof_MemoryBlock_def sizeof_size_t_def)

subsection \<open>What a request takes from the operating system\<close>

text \<open>
  Adding 16 commutes with rounding up to a multiple of 8, so \<open>allocSize\<close> of the span
  \<open>malloc\<close> computes is the request size plus the header size, rounded up.
\<close>

lemma align_plus16: "align (n + 16) = align n + 16"
proof -
  have m: "(7 :: 64 word) = mask 3" by (simp add: mask_eq_exp_minus_1)
  have p: "(x + 7) AND NOT 7 = push_bit 3 (drop_bit 3 (x + 7))" for x :: "64 word"
    unfolding m by (rule bit_word_eqI) (auto simp add: bit_simps)
  have a: "align x = (x + 7) - take_bit 3 (x + 7)" for x
  proof -
    have "align x = (x + 7) AND NOT 7"
      by (simp add: align_def sizeof_word_t_def add.commute)
    then have "align x = push_bit 3 (drop_bit 3 (x + 7))"
      by (simp only: p)
    also have "\<dots> = (x + 7) - take_bit 3 (x + 7)"
      using bits_ident[of 3 "x + 7"] by (simp add: algebra_simps)
    finally show ?thesis .
  qed
  have t: "take_bit 3 (y + 16) = take_bit 3 (y :: 64 word)" for y
  proof -
    have d: "(8 :: nat) dvd 2 ^ 64" by simp
    have "unat (y + 16) mod 8 = ((unat y + 16) mod 2 ^ 64) mod 8"
      by (simp add: unat_word_ariths)
    also have "\<dots> = (unat y + 16) mod 8" using d by (rule mod_mod_cancel)
    also have "\<dots> = unat y mod 8" by presburger
    finally have "unat (take_bit 3 (y + 16)) = unat (take_bit 3 y)"
      unfolding unsigned_take_bit_eq by (simp add: take_bit_eq_mod)
    then show ?thesis by (simp only: word_unat_eq_iff)
  qed
  have e: "n + 16 + 7 = (n + 7) + 16" by simp
  show ?thesis unfolding a e t by simp
qed

lemma allocSize_span: "allocSize (align (sizeof_pointer + sz)) = align (sizeof_MemoryBlock + sz)"
proof -
  have "align (sizeof_MemoryBlock + sz) = align ((sizeof_pointer + sz) + 16)"
    by (simp add: sizeof_MemoryBlock_def sizeof_pointer_def)
  then show ?thesis
    by (simp only: align_plus16) (simp add: allocSize_def sizeof_MemoryBlock_def sizeof_size_t_def)
qed

lemma align_header_plus:
  assumes "unat sz + 31 < 2 ^ 64"
  shows "unat (align (sizeof_MemoryBlock + sz)) = 8 * ((unat sz + 31) div 8)"
proof -
  have "unat sz + unat (31 :: 64 word) < 2 ^ LENGTH(64)" using assms by simp
  then have u: "unat (sz + 31) = unat sz + unat (31 :: 64 word)" by (simp only: unat_add_lem)
  have e: "sizeof_MemoryBlock + sz + 7 = sz + 31" by (simp add: sizeof_MemoryBlock_def)
  show ?thesis unfolding align_unat e u by simp
qed

lemma span_header8: "align (sizeof_MemoryBlock + 8) = 32"
  by (simp add: align_def sizeof_MemoryBlock_def sizeof_word_t_def)

text \<open>Releasing the only block of a chain marks it free and changes nothing else.\<close>

lemma free_single:
  assumes "heap_start h = b" "b \<noteq> 0" "blk_next h b = 0" "b + 24 \<noteq> 0"
  shows "free (b + 24) h = Some (set_isFree b True h)"
proof -
  let ?h2 = "set_isFree b True h"
  have f: "heap_start ?h2 = b" "blk_isFree ?h2 b" "blk_next ?h2 b = 0"
    using assms by simp_all
  have ch: "chain ?h2 (heap_start ?h2) [b]" using f assms(2) by simp
  have mp: "mergePrev ?h2 b (heap_start ?h2) = Some ?h2"
    using mergePrev_chain[OF ch, of b] f assms(2) by simp
  have mf: "mergeFreeBlocks b ?h2 = Some ?h2"
    using mp f by (simp add: mergeFreeBlocks_def)
  have mb: "mergeBlocks b ?h2 = Some ?h2"
    using f by (simp add: mergeBlocks_def mergeBlocks_loop_stop)
  show ?thesis
    using assms(4) mf mb by (simp add: free_def sizeof_MemoryBlock_def Let_def)
qed

text \<open>
  On a chain that ends in \<open>nullptr\<close> and whose headers lie clear of the break, both walks
  of \<open>malloc\<close> end, so \<open>malloc\<close> returns.
\<close>

lemma malloc_returns:
  assumes "chain h (heap_start h) bs" "\<forall>c\<in>set bs. sep (brk h) c"
  shows "\<exists>p h'. malloc sz h = Some (p, h')"
proof (cases "sz = 0 \<or> heap_start h = 0")
  case True
  then show ?thesis by (auto simp add: malloc_def Let_def split: prod.splits)
next
  case False
  let ?span = "align (sizeof_pointer + sz)"
  have nz: "sz \<noteq> 0" "heap_start h \<noteq> 0" using False by simp_all
  have ff: "findFreeBlock ?span h = Some (first_fit h ?span bs)"
    using findFree_from_chain[OF assms(1)] by (simp add: findFreeBlock_def)
  have ne: "bs \<noteq> []" using nz(2) assms(1) by (rule chain_nonempty[rotated])
  have lb: "last_block (grown (brk h) ?span h) (heap_start h) = Some (last bs)"
    using last_block_chain[OF chain_grown[OF assms(1)] ne] assms(2) by simp
  show ?thesis
    using requestSpace_cases[of ?span h] nz ff lb
    by (auto simp add: malloc_def Let_def split: prod.splits)
qed

section \<open>The claims\<close>

subsection \<open>Request sizes that are not positive\<close>

text \<open>
  C9 (as amended). \<open>malloc\<close> takes a \<open>size_t\<close>, so its guard \<open>size <= 0\<close> holds for
  \<open>size = 0\<close> only: \<open>malloc(0)\<close> returns null and leaves the whole process state (memory,
  \<open>heap_start\<close>, program break) as it was.
\<close>

theorem malloc_zero: "((sz :: size_t) \<le> 0 \<longleftrightarrow> sz = 0) \<and> malloc 0 h = Some (0, h)"
  by (simp add: malloc_def)

text \<open>
  A negative argument reaches \<open>malloc\<close> as a large unsigned value and is not rejected:
  \<open>malloc((size_t) -1)\<close> on the empty arena computes the span \<open>align(8 + (2^64 - 1)) = 8\<close>,
  grows the arena by 24 bytes and returns a non-null pointer.
\<close>

theorem malloc_negative_counterexample:
  "sint (- 1 :: size_t) < 0 \<and> map_option fst (malloc (- 1) arena0) = Some 4120 \<and>
   map_option (brk \<circ> snd) (malloc (- 1) arena0) = Some 4120"
  by (simp add: malloc_def arena0_def requestSpace_def sbrk_def allocSize_def align_def
      sizeof_MemoryBlock_def sizeof_word_t_def sizeof_size_t_def sizeof_pointer_def Let_def)

subsection \<open>Arena growth\<close>

text \<open>
  C3. The claim has \<open>requestSpace\<close> take from the operating system exactly the bytes the
  new block occupies, its 24-byte header and its capacity. The code takes 8 bytes less than
  that. On the empty arena \<open>malloc(24)\<close> calls \<open>requestSpace(32)\<close>: the header is
  written at the previous break 4096, marked used and without successor, as claimed; but the
  break moves by \<open>allocSize(32) = 48\<close> bytes (not 32), the capacity recorded is 32 (not
  \<open>32 - 24\<close>, nor the \<open>48 - 24\<close> that the bytes obtained leave after the header), and
  header plus capacity end at 4152, 8 bytes beyond the new break 4144.
\<close>

theorem requestSpace_capacity_exceeds_reservation:
  "malloc 24 arena0 = Some (4096 + sizeof_MemoryBlock, snd (requestSpace 32 arena0)) \<and>
   fst (requestSpace 32 arena0) = 4096 \<and>
   brk (snd (requestSpace 32 arena0)) - brk arena0 = 48 \<and>
   blk_size (snd (requestSpace 32 arena0)) 4096 = 32 \<and>
   \<not> blk_isFree (snd (requestSpace 32 arena0)) 4096 \<and>
   blk_next (snd (requestSpace 32 arena0)) 4096 = 0 \<and>
   brk (snd (requestSpace 32 arena0)) - brk arena0 \<noteq> 32 \<and>
   blk_size (snd (requestSpace 32 arena0)) 4096 \<noteq> 32 - sizeof_MemoryBlock \<and>
   blk_size (snd (requestSpace 32 arena0)) 4096 \<noteq>
     brk (snd (requestSpace 32 arena0)) - brk arena0 - sizeof_MemoryBlock \<and>
   brk (snd (requestSpace 32 arena0)) = 4144 \<and>
   4096 + sizeof_MemoryBlock + blk_size (snd (requestSpace 32 arena0)) 4096 = 4152"
proof -
  have g: "fst (sbrk (allocSize 32) arena0) \<noteq> - 1" by (simp add: sbrk_def)
  have r: "requestSpace 32 arena0 = (4096, grown 4096 32 arena0)"
    using requestSpace_granted[OF g] by simp
  have m: "malloc 24 arena0 = Some (4120, grown 4096 32 arena0)"
    using malloc_arena0[of 24] by (simp add: span24)
  show ?thesis unfolding r m by (simp add: allocSize32 sizeof_MemoryBlock_def)
qed

subsection \<open>Splitting a block\<close>

text \<open>
  C4 (as amended). For a block \<open>block\<close> of capacity \<open>blk_size h block\<close> and a size
  \<open>sz\<close> with \<open>sz + 48 \<le> 2^64\<close>, so that \<open>sz + 24\<close> does not wrap in \<open>size_t\<close> and
  the prospective remainder header, at \<open>block + 24 + sz\<close>, lies clear of the header of
  \<open>block\<close>: \<open>splitBlock\<close> carves a remainder exactly when the capacity exceeds \<open>sz\<close>
  plus the header size. Then the new block starts right after \<open>sz\<close> payload bytes, is free,
  has capacity \<open>capacity - sz - 24\<close> and the old successor, and the block itself shrinks to
  \<open>sz\<close> and links to the new block. Otherwise the state is unchanged.
\<close>

theorem splitBlock_spec:
  assumes "unat sz + 48 \<le> 2 ^ 64"
  shows "(unat (blk_size h block) \<le> unat sz + 24 \<longrightarrow> splitBlock block sz h = h) \<and>
         (unat sz + 24 < unat (blk_size h block) \<longrightarrow>
            blk_size (splitBlock block sz h) block = sz \<and>
            blk_next (splitBlock block sz h) block = block + 24 + sz \<and>
            blk_isFree (splitBlock block sz h) (block + 24 + sz) \<and>
            blk_size (splitBlock block sz h) (block + 24 + sz) = blk_size h block - sz - 24 \<and>
            blk_next (splitBlock block sz h) (block + 24 + sz) = blk_next h block)"
proof -
  have u: "unat (sz + 24) = unat sz + 24"
  proof -
    have "unat sz + unat (24 :: 64 word) < 2 ^ LENGTH(64)" using assms by simp
    then show ?thesis by (simp only: unat_add_lem) simp
  qed
  have c: "blk_size h block \<le> sz + 24 \<longleftrightarrow> unat (blk_size h block) \<le> unat sz + 24"
    by (simp add: word_le_nat_alt u)
  have s1: "sep block (block + 24 + sz)" using assms by (rule split_sep)
  have s2: "sep (block + 24 + sz) block" using s1 by (rule sep_sym)
  show ?thesis
    by (simp add: splitBlock_def sizeof_MemoryBlock_def c Let_def other_block[OF s1] other_block[OF s2])
qed

theorem splitBlock_spec_witness:
  "unat (16 :: size_t) + 48 \<le> 2 ^ 64 \<and>
   unat (16 :: size_t) + 24 < unat (blk_size (set_size 4096 100 arena0) 4096) \<and>
   blk_size (splitBlock 4096 16 (set_size 4096 100 arena0)) 4096 = 16 \<and>
   blk_next (splitBlock 4096 16 (set_size 4096 100 arena0)) 4096 = 4136 \<and>
   blk_isFree (splitBlock 4096 16 (set_size 4096 100 arena0)) 4136 \<and>
   blk_size (splitBlock 4096 16 (set_size 4096 100 arena0)) 4136 = 60 \<and>
   blk_next (splitBlock 4096 16 (set_size 4096 100 arena0)) 4136 = 0 \<and>
   unat (blk_size (set_size 4096 100 arena0) 4096) \<le> unat (90 :: size_t) + 24 \<and>
   splitBlock 4096 90 (set_size 4096 100 arena0) = set_size 4096 100 arena0"
  using splitBlock_spec[of 16 "set_size 4096 100 arena0" 4096]
    splitBlock_spec[of 90 "set_size 4096 100 arena0" 4096]
  by simp

text \<open>
  Without the bound the claim fails. For \<open>sz = 2^64 - 24\<close> the sum \<open>sz + 24\<close> wraps
  to 0, so a block of capacity 100 is split although 100 does not exceed \<open>sz\<close> plus the
  header size: the remainder header lands on the block itself, which ends up free, with size
  \<open>sz\<close> and as its own successor.
\<close>

theorem splitBlock_wrap_counterexample:
  "unat (blk_size (set_size 4096 100 arena0) 4096) \<le> unat (- 24 :: size_t) + 24 \<and>
   splitBlock 4096 (- 24) (set_size 4096 100 arena0) \<noteq> set_size 4096 100 arena0 \<and>
   blk_size (splitBlock 4096 (- 24) (set_size 4096 100 arena0)) 4096 = - 24 \<and>
   blk_isFree (splitBlock 4096 (- 24) (set_size 4096 100 arena0)) 4096 \<and>
   blk_next (splitBlock 4096 (- 24) (set_size 4096 100 arena0)) 4096 = 4096"
proof -
  let ?h = "set_size 4096 100 arena0"
  let ?s = "splitBlock 4096 (- 24) ?h"
  have f: "blk_size ?s 4096 = - 24" "blk_isFree ?s 4096" "blk_next ?s 4096 = 4096"
    by (simp_all add: splitBlock_def sizeof_MemoryBlock_def Let_def)
  have "blk_next ?h 4096 = 0" by simp
  then have "?s \<noteq> ?h" using f(3) by auto
  then show ?thesis using f by simp
qed

subsection \<open>Reallocation when the arena cannot grow\<close>

text \<open>
  C6. Let \<open>ptr\<close> be non-null, \<open>sz > 0\<close> and larger than the capacity of the block of
  \<open>ptr\<close>. Whenever the fresh \<open>malloc\<close> returns null, \<open>realloc\<close> returns null and
  does nothing more: no byte is copied and the old block is not released. When the allocation
  fails because no free block fits (or there is no chain) and the operating system refuses to
  move the break, the whole state is the one before the call: the original block is still
  used, with the same capacity and the same payload bytes.
\<close>

theorem realloc_growth_failure:
  assumes "ptr \<noteq> 0" "sz \<noteq> 0" "blk_size h (ptr - sizeof_MemoryBlock) < sz"
  shows "(malloc sz h = Some (0, h1) \<longrightarrow> realloc ptr sz h = Some (0, h1)) \<and>
         ((heap_start h = 0 \<or> findFreeBlock (align (sizeof_pointer + sz)) h = Some 0) \<longrightarrow>
          sbrk (allocSize (align (sizeof_pointer + sz))) h = (- 1, h) \<longrightarrow>
          malloc sz h = Some (0, h) \<and> realloc ptr sz h = Some (0, h))"
proof (intro conjI impI)
  assume "malloc sz h = Some (0, h1)"
  then show "realloc ptr sz h = Some (0, h1)"
    using assms by (simp add: realloc_def Let_def not_le [symmetric])
next
  assume a: "heap_start h = 0 \<or> findFreeBlock (align (sizeof_pointer + sz)) h = Some 0"
    and r: "sbrk (allocSize (align (sizeof_pointer + sz))) h = (- 1, h)"
  have m: "malloc sz h = Some (0, h)"
    using assms(2) a requestSpace_refused[OF r] by (auto simp add: malloc_def Let_def)
  then show "malloc sz h = Some (0, h)" .
  show "realloc ptr sz h = Some (0, h)"
    using assms m by (simp add: realloc_def Let_def not_le [symmetric])
qed

theorem realloc_growth_failure_witness:
  "(4120 :: addr) \<noteq> 0 \<and> (24 :: size_t) \<noteq> 0 \<and>
   blk_size arena_full (4120 - sizeof_MemoryBlock) < 24 \<and>
   findFreeBlock (align (sizeof_pointer + 24)) arena_full = Some 0 \<and>
   sbrk (allocSize (align (sizeof_pointer + 24))) arena_full = (- 1, arena_full) \<and>
   malloc 24 arena_full = Some (0, arena_full) \<and>
   realloc 4120 24 arena_full = Some (0, arena_full)"
proof -
  have 3: "blk_size arena_full (4120 - sizeof_MemoryBlock) < 24"
    by (simp add: sizeof_MemoryBlock_def)
  have ch: "chain arena_full (heap_start arena_full) [4096]" by simp
  have 4: "findFreeBlock (align (sizeof_pointer + 24)) arena_full = Some 0"
    using findFree_from_chain[OF ch] by (simp add: findFreeBlock_def first_fit_def)
  have 5: "sbrk (allocSize (align (sizeof_pointer + 24))) arena_full = (- 1, arena_full)"
    by (simp add: sbrk_def allocSize_def align_def sizeof_pointer_def sizeof_word_t_def
        sizeof_MemoryBlock_def sizeof_size_t_def)
  have 1: "(4120 :: addr) \<noteq> 0" and 2: "(24 :: size_t) \<noteq> 0" by simp_all
  from realloc_growth_failure[OF 1 2 3, of arena_full] 1 2 3 4 5 show ?thesis by blast
qed

subsection \<open>Zeroed allocation\<close>

text \<open>
  C7 (as amended). \<open>calloc(num, sz)\<close> returns null, leaving the state untouched, when
  \<open>num != 0\<close> and \<open>(num * sz) / num != sz\<close>. Otherwise it returns what
  \<open>malloc(num * sz)\<close> returns: null (with the state \<open>malloc\<close> left) when that is null,
  which includes every request with \<open>num * sz = 0\<close>, and else the same pointer, in the
  state \<open>malloc\<close> left with \<open>num * sz\<close> bytes filled with zero. Whenever \<open>calloc\<close>
  returns a non-null pointer, each of the \<open>num * sz\<close> bytes from that pointer on is zero.
\<close>

theorem calloc_spec:
  "(num \<noteq> 0 \<and> (num * sz) div num \<noteq> sz \<longrightarrow> calloc num sz h = Some (0, h)) \<and>
   (\<not> (num \<noteq> 0 \<and> (num * sz) div num \<noteq> sz) \<longrightarrow>
      map_option fst (calloc num sz h) = map_option fst (malloc (num * sz) h) \<and>
      (\<forall>h1. malloc (num * sz) h = Some (0, h1) \<longrightarrow> calloc num sz h = Some (0, h1)) \<and>
      (\<forall>p h1. malloc (num * sz) h = Some (p, h1) \<longrightarrow> p \<noteq> 0 \<longrightarrow>
         calloc num sz h = Some (p, memset_heap p 0 (num * sz) h1))) \<and>
   (\<forall>p h'. calloc num sz h = Some (p, h') \<longrightarrow> p \<noteq> 0 \<longrightarrow>
      (\<forall>i. i < num * sz \<longrightarrow> mem h' (p + i) = 0))"
  by (auto simp add: calloc_def Let_def memset_def memset_heap_def split: option.splits if_splits)

theorem calloc_spec_witness:
  "\<not> ((10 :: size_t) \<noteq> 0 \<and> (10 * 4) div 10 \<noteq> (4 :: size_t)) \<and>
   calloc 10 4 arena0 = Some (4120, memset_heap 4120 0 40 (grown 4096 48 arena0)) \<and>
   map_option fst (malloc (10 * 4) arena0) = Some 4120 \<and>
   (39 :: size_t) < 10 * 4 \<and>
   mem (memset_heap 4120 0 40 (grown 4096 48 arena0)) (4120 + 39) = 0 \<and>
   (2 ^ 63 :: size_t) \<noteq> 0 \<and> (2 ^ 63 * 2) div 2 ^ 63 \<noteq> (2 :: size_t) \<and>
   calloc (2 ^ 63) 2 arena0 = Some (0, arena0) \<and>
   malloc (0 * 5) arena0 = Some (0, arena0) \<and> calloc 0 5 arena0 = Some (0, arena0)"
proof -
  have sp: "align (sizeof_pointer + 40) = 48"
    by (simp add: align_def sizeof_pointer_def sizeof_word_t_def)
  have m: "malloc 40 arena0 = Some (4120, grown 4096 48 arena0)"
    using malloc_arena0[of 40] by (simp add: sp)
  have c: "calloc 10 4 arena0 = Some (4120, memset_heap 4120 0 40 (grown 4096 48 arena0))"
    using m by (simp add: calloc_def)
  have g: "(2 ^ 63 :: size_t) \<noteq> 0 \<and> (2 ^ 63 * 2) div 2 ^ 63 \<noteq> (2 :: size_t)" by simp
  have z: "malloc (0 * 5) arena0 = Some (0, arena0)" by (simp add: malloc_def)
  have "\<forall>i. i < 10 * 4 \<longrightarrow> mem (memset_heap 4120 0 40 (grown 4096 48 arena0)) (4120 + i) = 0"
    using calloc_spec[of 10 4 arena0] c by simp
  then have b: "mem (memset_heap 4120 0 40 (grown 4096 48 arena0)) (4120 + 39) = 0"
    by (rule allE[of _ 39]) simp
  show ?thesis
    using calloc_spec[of "2 ^ 63" 2 arena0] calloc_spec[of 0 5 arena0] b c m g z
    by simp
qed

text \<open>
  The claim as stated fails: \<open>calloc(0, 5)\<close> returns null although \<open>num = 0\<close>, so the
  overflow guard did not fire.
\<close>

theorem calloc_null_counterexample:
  "calloc 0 5 arena0 = Some (0, arena0) \<and> \<not> ((0::size_t) \<noteq> 0 \<and> (0 * 5) div 0 \<noteq> (5::size_t))"
  by (simp add: calloc_def malloc_def)

subsection \<open>First fit and reuse\<close>

text \<open>
  C8. On any empty arena, if \<open>malloc(4)\<close> returns a non-null \<open>p\<close>, then releasing \<open>p\<close>
  and calling \<open>malloc(4)\<close> again returns the same \<open>p\<close>. The search behind it is first fit:
  when the chain from \<open>heap_start\<close> visits the blocks \<open>bs\<close>, \<open>findFreeBlock sz\<close> returns
  the first block of \<open>bs\<close> that is free with capacity at least \<open>sz\<close>, and null only when
  no block of \<open>bs\<close> qualifies.
\<close>

theorem first_fit_reuse:
  "(heap_start h0 = 0 \<longrightarrow> malloc 4 h0 = Some (p, h1) \<longrightarrow> p \<noteq> 0 \<longrightarrow>
      (\<exists>h2 h3. free p h1 = Some h2 \<and> malloc 4 h2 = Some (p, h3))) \<and>
   (chain h (heap_start h) bs \<longrightarrow> findFreeBlock sz h = Some (first_fit h sz bs))"
proof (intro conjI impI)
  assume as: "heap_start h0 = 0" "malloc 4 h0 = Some (p, h1)" "p \<noteq> 0"
  let ?b = "brk h0"
  from malloc_first[OF as] have b: "?b \<noteq> 0" "p = ?b + 24" "h1 = grown ?b 16 h0"
    by (simp_all add: span4)
  let ?h2 = "set_isFree ?b True h1"
  have f: "heap_start ?h2 = ?b" "blk_size ?h2 ?b = 16" "blk_isFree ?h2 ?b" "blk_next ?h2 ?b = 0"
    using as(1) by (simp_all add: b(3))
  have ch: "chain ?h2 (heap_start ?h2) [?b]" using f b(1) by simp
  have mp: "mergePrev ?h2 ?b (heap_start ?h2) = Some ?h2"
    using mergePrev_chain[OF ch, of ?b] f b(1) by simp
  have mf: "mergeFreeBlocks ?b ?h2 = Some ?h2"
    using mp f by (simp add: mergeFreeBlocks_def)
  have mb: "mergeBlocks ?b ?h2 = Some ?h2"
    using f b(1) by (simp add: mergeBlocks_def mergeBlocks_loop_stop)
  have fr: "free p h1 = Some ?h2"
    using as(3) mf mb by (simp add: free_def b(2) sizeof_MemoryBlock_def Let_def)
  have ff: "findFreeBlock 16 ?h2 = Some ?b"
    using findFree_from_chain[OF ch, of 16] f by (simp add: findFreeBlock_def first_fit_def)
  have "malloc 4 ?h2 = Some (p, splitBlock ?b 16 (set_isFree ?b False ?h2))"
    using ff f b(1) by (simp add: malloc_def span4 Let_def b(2) sizeof_MemoryBlock_def)
  with fr show "\<exists>h2 h3. free p h1 = Some h2 \<and> malloc 4 h2 = Some (p, h3)" by blast
next
  assume "chain h (heap_start h) bs"
  then show "findFreeBlock sz h = Some (first_fit h sz bs)"
    by (simp add: findFreeBlock_def findFree_from_chain)
qed

theorem first_fit_reuse_witness:
  "heap_start arena0 = 0 \<and> malloc 4 arena0 = Some (4120, grown 4096 16 arena0) \<and>
   (4120 :: addr) \<noteq> 0 \<and>
   (\<exists>h2 h3. free 4120 (grown 4096 16 arena0) = Some h2 \<and> malloc 4 h2 = Some (4120, h3)) \<and>
   chain (set_isFree 4096 True (grown 4096 16 arena0))
     (heap_start (set_isFree 4096 True (grown 4096 16 arena0))) [4096] \<and>
   findFreeBlock 16 (set_isFree 4096 True (grown 4096 16 arena0)) = Some 4096"
proof -
  have m: "malloc 4 arena0 = Some (4120, grown 4096 16 arena0)"
    using malloc_arena0[of 4] by (simp add: span4)
  let ?h = "set_isFree 4096 True (grown 4096 16 arena0)"
  have ch: "chain ?h (heap_start ?h) [4096]" by simp
  have ff: "first_fit ?h 16 [4096] = 4096" by (simp add: first_fit_def)
  show ?thesis
    using first_fit_reuse[of arena0 4120 "grown 4096 16 arena0" ?h "[4096]" 16] m ch ff
    by simp
qed

subsection \<open>The span of a request\<close>

text \<open>
  C2 (as amended). Let \<open>sz > 0\<close> with \<open>sz + 31 < 2^63\<close>, so that no size computation
  wraps and the increment handed to \<open>sbrk\<close> is positive, and let \<open>total\<close> be
  \<open>align(sizeof(MemoryBlock) + sz)\<close>: the request size plus the 24-byte header, rounded up
  to the next multiple of 8. Whenever \<open>malloc(sz)\<close> grows the arena, on the empty arena or
  after a search that found no block, the break moves by exactly \<open>total\<close> bytes and the
  pointer returned lies one header past the previous break. But \<open>total\<close> is not the value
  \<open>malloc\<close> hands on: \<open>findFreeBlock\<close>, \<open>splitBlock\<close> on a hit and
  \<open>requestSpace\<close> all receive the same smaller span (16 bytes less), and
  \<open>requestSpace\<close> adds header overhead to what it receives. On every chain that ends in
  \<open>nullptr\<close> and whose headers lie clear of the break, \<open>malloc\<close> returns.
\<close>

theorem malloc_span:
  assumes "sz \<noteq> 0" "unat sz + 31 < 2 ^ 63"
  shows "unat (align (sizeof_MemoryBlock + sz)) = 8 * ((unat sz + 31) div 8) \<and>
         unat (align (sizeof_pointer + sz)) + 16 = unat (align (sizeof_MemoryBlock + sz)) \<and>
         (heap_start h = 0 \<longrightarrow> fst (sbrk (align (sizeof_MemoryBlock + sz)) h) \<noteq> - 1 \<longrightarrow>
            brk h \<noteq> 0 \<longrightarrow>
            malloc sz h = Some (brk h + sizeof_MemoryBlock,
              snd (requestSpace (align (sizeof_pointer + sz)) h)) \<and>
            brk (snd (requestSpace (align (sizeof_pointer + sz)) h)) =
              brk h + align (sizeof_MemoryBlock + sz)) \<and>
         (heap_start h \<noteq> 0 \<longrightarrow> findFreeBlock (align (sizeof_pointer + sz)) h = Some 0 \<longrightarrow>
            fst (sbrk (align (sizeof_MemoryBlock + sz)) h) \<noteq> - 1 \<longrightarrow> brk h \<noteq> 0 \<longrightarrow>
            last_block (snd (requestSpace (align (sizeof_pointer + sz)) h)) (heap_start h) =
              Some t \<longrightarrow>
            malloc sz h = Some (brk h + sizeof_MemoryBlock,
              set_next t (brk h) (snd (requestSpace (align (sizeof_pointer + sz)) h))) \<and>
            brk (set_next t (brk h) (snd (requestSpace (align (sizeof_pointer + sz)) h))) =
              brk h + align (sizeof_MemoryBlock + sz)) \<and>
         (heap_start h \<noteq> 0 \<longrightarrow> findFreeBlock (align (sizeof_pointer + sz)) h = Some found \<longrightarrow>
            found \<noteq> 0 \<longrightarrow>
            malloc sz h = Some (found + sizeof_MemoryBlock,
              splitBlock found (align (sizeof_pointer + sz)) (set_isFree found False h))) \<and>
         (chain h (heap_start h) bs \<longrightarrow> (\<forall>c\<in>set bs. sep (brk h) c) \<longrightarrow>
            (\<exists>p h'. malloc sz h = Some (p, h')))"
proof -
  let ?span = "align (sizeof_pointer + sz)"
  let ?total = "align (sizeof_MemoryBlock + sz)"
  have b: "unat sz + 31 < 2 ^ 64" using assms(2) by simp
  have t: "unat ?total = 8 * ((unat sz + 31) div 8)"
    using b by (rule align_header_plus)
  have "unat sz + 15 < 2 ^ 64" using b by simp
  then have "unat ?span = 8 * ((unat sz + 15) div 8)"
    by (rule align_pointer_plus)
  then have d: "unat ?span + 16 = unat ?total"
    unfolding t by arith
  have first: "malloc sz h = Some (brk h + sizeof_MemoryBlock, snd (requestSpace ?span h)) \<and>
               brk (snd (requestSpace ?span h)) = brk h + ?total"
    if "heap_start h = 0" and g: "fst (sbrk ?total h) \<noteq> - 1" and "brk h \<noteq> 0"
    using that(1,3) assms(1) requestSpace_granted[OF g[folded allocSize_span]]
    by (simp add: malloc_def Let_def allocSize_span grown_def)
  have miss: "malloc sz h = Some (brk h + sizeof_MemoryBlock,
                set_next t (brk h) (snd (requestSpace ?span h))) \<and>
              brk (set_next t (brk h) (snd (requestSpace ?span h))) = brk h + ?total"
    if "heap_start h \<noteq> 0" "findFreeBlock ?span h = Some 0"
      and g: "fst (sbrk ?total h) \<noteq> - 1" and "brk h \<noteq> 0"
      and "last_block (snd (requestSpace ?span h)) (heap_start h) = Some t"
    using that(1,2,4,5) assms(1) requestSpace_granted[OF g[folded allocSize_span]]
    by (simp add: malloc_def Let_def allocSize_span)
  have hit: "malloc sz h = Some (found + sizeof_MemoryBlock,
               splitBlock found ?span (set_isFree found False h))"
    if "heap_start h \<noteq> 0" "findFreeBlock ?span h = Some found" "found \<noteq> 0"
    using that assms(1) by (simp add: malloc_def Let_def)
  have ret: "\<exists>p h'. malloc sz h = Some (p, h')"
    if "chain h (heap_start h) bs" "\<forall>c\<in>set bs. sep (brk h) c"
    using that by (rule malloc_returns)
  show ?thesis using t d first miss hit ret by blast
qed

theorem malloc_span_witness:
  "(8 :: size_t) \<noteq> 0 \<and> unat (8 :: size_t) + 31 < 2 ^ 63 \<and>
   unat (align (sizeof_MemoryBlock + 8)) = 8 * ((unat (8 :: size_t) + 31) div 8) \<and>
   unat (align (sizeof_pointer + 8)) + 16 = unat (align (sizeof_MemoryBlock + 8)) \<and>
   heap_start arena0 = 0 \<and> fst (sbrk (align (sizeof_MemoryBlock + 8)) arena0) \<noteq> - 1 \<and>
   brk arena0 \<noteq> 0 \<and>
   malloc 8 arena0 = Some (4096 + sizeof_MemoryBlock, snd (requestSpace 16 arena0)) \<and>
   brk (snd (requestSpace 16 arena0)) = 4096 + 32 \<and>
   heap_start (grown 4096 16 arena0) \<noteq> 0 \<and>
   findFreeBlock (align (sizeof_pointer + 8)) (grown 4096 16 arena0) = Some 0 \<and>
   fst (sbrk (align (sizeof_MemoryBlock + 8)) (grown 4096 16 arena0)) \<noteq> - 1 \<and>
   brk (grown 4096 16 arena0) \<noteq> 0 \<and>
   last_block (snd (requestSpace 16 (grown 4096 16 arena0)))
     (heap_start (grown 4096 16 arena0)) = Some 4096 \<and>
   malloc 8 (grown 4096 16 arena0) =
     Some (4128 + sizeof_MemoryBlock,
       set_next 4096 4128 (snd (requestSpace 16 (grown 4096 16 arena0)))) \<and>
   brk (set_next 4096 4128 (snd (requestSpace 16 (grown 4096 16 arena0)))) = 4128 + 32 \<and>
   (4 :: size_t) \<noteq> 0 \<and> unat (4 :: size_t) + 31 < 2 ^ 63 \<and>
   heap_start (set_isFree 4096 True (grown 4096 16 arena0)) \<noteq> 0 \<and>
   findFreeBlock (align (sizeof_pointer + 4)) (set_isFree 4096 True (grown 4096 16 arena0)) =
     Some 4096 \<and>
   malloc 4 (set_isFree 4096 True (grown 4096 16 arena0)) =
     Some (4096 + sizeof_MemoryBlock,
       splitBlock 4096 16 (set_isFree 4096 False (set_isFree 4096 True (grown 4096 16 arena0)))) \<and>
   chain (grown 4096 16 arena0) (heap_start (grown 4096 16 arena0)) [4096] \<and>
   sep (brk (grown 4096 16 arena0)) 4096 \<and>
   (\<exists>p h'. malloc 8 (grown 4096 16 arena0) = Some (p, h'))"
proof -
  let ?h1 = "grown 4096 16 arena0"
  let ?h2 = "set_isFree 4096 True ?h1"
  have g0: "fst (sbrk (align (sizeof_MemoryBlock + 8)) arena0) \<noteq> - 1"
    by (simp add: sbrk_def)
  have ch2: "chain ?h2 (heap_start ?h2) [4096]" by simp
  have f2: "findFreeBlock (align (sizeof_pointer + 4)) ?h2 = Some 4096"
    using findFree_from_chain[OF ch2, of 16] by (simp add: findFreeBlock_def first_fit_def span4)
  have ch1: "chain ?h1 (heap_start ?h1) [4096]" by simp
  have f1: "findFreeBlock (align (sizeof_pointer + 8)) ?h1 = Some 0"
    using findFree_from_chain[OF ch1, of 16] by (simp add: findFreeBlock_def first_fit_def span8)
  have g1: "fst (sbrk (align (sizeof_MemoryBlock + 8)) ?h1) \<noteq> - 1"
    by (simp add: sbrk_def span_header8 allocSize16)
  have g1': "fst (sbrk (allocSize 16) ?h1) \<noteq> - 1"
    by (simp add: sbrk_def allocSize16)
  have r1: "requestSpace 16 ?h1 = (4128, grown 4128 16 ?h1)"
    using requestSpace_granted[OF g1'] by (simp add: allocSize16)
  have ch3: "chain (grown 4128 16 ?h1) 4096 [4096]"
    by (simp add: grown_other[OF sep_4128_4096(1)])
  have l1: "last_block (snd (requestSpace 16 ?h1)) (heap_start ?h1) = Some 4096"
    unfolding r1 using last_block_chain[OF ch3] by simp
  have b1: "brk ?h1 = 4128" by (simp add: allocSize16)
  have n: "(8 :: size_t) \<noteq> 0" "unat (8 :: size_t) + 31 < 2 ^ 63"
    "(4 :: size_t) \<noteq> 0" "unat (4 :: size_t) + 31 < 2 ^ 63" by simp_all
  have w0: "malloc 8 arena0 = Some (4096 + sizeof_MemoryBlock, snd (requestSpace 16 arena0)) \<and>
            brk (snd (requestSpace 16 arena0)) = 4096 + 32"
    using malloc_span[OF n(1,2), of arena0 4096 0] g0 by (simp add: span8 span_header8)
  have w1: "malloc 8 ?h1 = Some (4128 + sizeof_MemoryBlock,
              set_next 4096 4128 (snd (requestSpace 16 ?h1))) \<and>
            brk (set_next 4096 4128 (snd (requestSpace 16 ?h1))) = 4128 + 32"
    using malloc_span[OF n(1,2), of ?h1 4096 0] f1 g1 l1
    by (simp add: span8 span_header8 allocSize16)
  have w2: "malloc 4 ?h2 = Some (4096 + sizeof_MemoryBlock,
              splitBlock 4096 16 (set_isFree 4096 False ?h2))"
    using malloc_span[OF n(3,4), of ?h2 0 4096] f2 by (simp add: span4)
  have a: "unat (align (sizeof_MemoryBlock + 8)) = 8 * ((unat (8 :: size_t) + 31) div 8)"
    "unat (align (sizeof_pointer + 8)) + 16 = unat (align (sizeof_MemoryBlock + 8))"
    by (simp_all add: span8 span_header8)
  have s1: "\<forall>c\<in>set [4096]. sep (brk ?h1) c"
    by (simp add: allocSize16 sep_4128_4096)
  have w3: "\<exists>p h'. malloc 8 ?h1 = Some (p, h')"
    using malloc_span[OF n(1,2), of ?h1 4096 0 "[4096]"] ch1 s1 by blast
  show ?thesis
    using n a g0 w0 f1 g1 l1 w1 f2 w2 ch1 s1 w3 by (simp add: allocSize16)
qed

text \<open>
  The claim as stated fails for size 8, where the claimed span is 32. After \<open>malloc(4)\<close>
  and \<open>free\<close> the chain holds one free block of capacity 16: a search with 32 finds
  nothing, yet \<open>malloc(8)\<close> returns that block and leaves the break alone, so the search
  was made with less. On the empty arena \<open>malloc(8)\<close> moves the break by 32, whereas
  \<open>requestSpace(32)\<close> moves it by 48, so growth was passed less as well.
\<close>

theorem malloc_span_counterexample:
  "align (sizeof_MemoryBlock + 8) = 32 \<and>
   malloc 4 arena0 = Some (4120, grown 4096 16 arena0) \<and>
   free 4120 (grown 4096 16 arena0) = Some (set_isFree 4096 True (grown 4096 16 arena0)) \<and>
   findFreeBlock 32 (set_isFree 4096 True (grown 4096 16 arena0)) = Some 0 \<and>
   map_option fst (malloc 8 (set_isFree 4096 True (grown 4096 16 arena0))) = Some 4120 \<and>
   map_option (brk \<circ> snd) (malloc 8 (set_isFree 4096 True (grown 4096 16 arena0))) =
     Some (brk (set_isFree 4096 True (grown 4096 16 arena0))) \<and>
   map_option (brk \<circ> snd) (malloc 8 arena0) = Some (4096 + 32) \<and>
   brk (snd (requestSpace 32 arena0)) = 4096 + 48"
proof -
  let ?h1 = "grown 4096 16 arena0"
  let ?h2 = "set_isFree 4096 True ?h1"
  have m4: "malloc 4 arena0 = Some (4120, ?h1)"
    using malloc_arena0[of 4] by (simp add: span4)
  have fr: "free 4120 ?h1 = Some ?h2"
    using free_single[of ?h1 4096] by simp
  have ch: "chain ?h2 (heap_start ?h2) [4096]" by simp
  have ff: "findFreeBlock 32 ?h2 = Some 0"
    using findFree_from_chain[OF ch, of 32] by (simp add: findFreeBlock_def first_fit_def)
  have fi: "first_fit ?h2 (align (sizeof_pointer + 8)) [4096] = 4096"
    by (simp add: first_fit_def span8)
  have nz: "(8 :: size_t) \<noteq> 0" "heap_start ?h2 \<noteq> 0" "(4096 :: addr) \<noteq> 0" by simp_all
  have m8: "malloc 8 ?h2 = Some (4096 + 24, splitBlock 4096 16 (set_isFree 4096 False ?h2))"
    using malloc_hit[OF nz(1,2) ch fi nz(3)] by (simp add: span8)
  have sb: "splitBlock 4096 16 (set_isFree 4096 False ?h2) = set_isFree 4096 False ?h2"
    by (simp add: splitBlock_def sizeof_MemoryBlock_def)
  have m0: "malloc 8 arena0 = Some (4120, ?h1)"
    using malloc_arena0[of 8] by (simp add: span8)
  have g: "fst (sbrk (allocSize 32) arena0) \<noteq> - 1" by (simp add: sbrk_def)
  have r: "requestSpace 32 arena0 = (4096, grown 4096 32 arena0)"
    using requestSpace_granted[OF g] by simp
  show ?thesis
    unfolding m4 fr m8 sb m0 r
    by (simp add: span_header8 ff allocSize16 allocSize32)
qed

subsection \<open>Releasing three neighbours from the middle out\<close>

text \<open>
  C1. On any empty arena, let three calls of \<open>malloc(sizeof(int))\<close> return the non-null
  pointers \<open>A\<close>, \<open>B\<close>, \<open>C\<close>. They lie 32 bytes apart in this order, and after
  \<open>free(B)\<close>, \<open>free(C)\<close>, \<open>free(A)\<close> the chain consists of the single block of \<open>A\<close>,
  which is free: the statistics walk counts one block and one free block.
\<close>

theorem middle_out_release_coalesces:
  assumes "heap_start h0 = 0"
    and "malloc 4 h0 = Some (A, h1)" "A \<noteq> 0"
    and "malloc 4 h1 = Some (B, h2)" "B \<noteq> 0"
    and "malloc 4 h2 = Some (C, h3)" "C \<noteq> 0"
  shows "B = A + 32 \<and> C = A + 64 \<and>
         (\<exists>h4 h5 h6 st. free B h3 = Some h4 \<and> free C h4 = Some h5 \<and> free A h5 = Some h6 \<and>
            chain h6 (heap_start h6) [A - 24] \<and> blk_isFree h6 (A - 24) \<and>
            memoryInfo h6 = Some st \<and> blockCount st = 1 \<and> freeBlockCount st = 1)"
proof -
  define b where "b = brk h0"
  note so = sep_offsets[of b]
  \<comment> \<open>first allocation\<close>
  from malloc_first[OF assms(1,2,3)]
  have a: "b \<noteq> 0" "A = b + 24" "h1 = grown b 16 h0" by (simp_all add: span4 b_def)
  have t1: "heap_start h1 = b" "brk h1 = b + 32"
    "blk_size h1 b = 16" "\<not> blk_isFree h1 b" "blk_next h1 b = 0"
    using assms(1) by (simp_all add: a(3) allocSize16)
  \<comment> \<open>second allocation\<close>
  have c1: "chain h1 (heap_start h1) [b]" using t1 a(1) by simp
  have m2: "brk h1 \<noteq> 0 \<and> B = brk h1 + 24 \<and>
            h2 = set_next (last [b]) (brk h1) (grown (brk h1) (align (sizeof_pointer + 4)) h1)"
    using t1 a(1) so
    by (intro malloc_miss[OF _ c1 _ _ assms(4,5)]) (simp_all add: first_fit_def span4)
  then have b2: "b + 32 \<noteq> 0" "B = b + 32 + 24" "h2 = set_next b (b + 32) (grown (b + 32) 16 h1)"
    by (simp_all add: t1 span4)
  have t2: "heap_start h2 = b" "brk h2 = b + 64"
    "blk_size h2 b = 16" "\<not> blk_isFree h2 b" "blk_next h2 b = b + 32"
    "blk_size h2 (b + 32) = 16" "\<not> blk_isFree h2 (b + 32)" "blk_next h2 (b + 32) = 0"
    using t1 a(1) by (simp_all add: b2(3) allocSize16 grown_other[OF so(2)] other_block[OF so(1)])
  \<comment> \<open>third allocation\<close>
  have c2: "chain h2 (heap_start h2) [b, b + 32]" using t2 a(1) b2(1) by simp
  have m3: "brk h2 \<noteq> 0 \<and> C = brk h2 + 24 \<and>
            h3 = set_next (last [b, b + 32]) (brk h2) (grown (brk h2) (align (sizeof_pointer + 4)) h2)"
    using t2 a(1) so
    by (intro malloc_miss[OF _ c2 _ _ assms(6,7)]) (auto simp add: first_fit_def span4)
  then have b3: "b + 64 \<noteq> 0" "C = b + 64 + 24"
    "h3 = set_next (b + 32) (b + 64) (grown (b + 64) 16 h2)"
    by (simp_all add: t2 span4)
  have t3: "heap_start h3 = b"
    "blk_size h3 b = 16" "\<not> blk_isFree h3 b" "blk_next h3 b = b + 32"
    "blk_size h3 (b + 32) = 16" "\<not> blk_isFree h3 (b + 32)" "blk_next h3 (b + 32) = b + 64"
    "blk_size h3 (b + 64) = 16" "\<not> blk_isFree h3 (b + 64)" "blk_next h3 (b + 64) = 0"
    using t2 a(1)
    by (simp_all add: b3(3) grown_other[OF so(4)] grown_other[OF so(6)]
        other_block[OF so(2)] other_block[OF so(5)])
  \<comment> \<open>release of the middle block\<close>
  define h4 where "h4 = set_isFree (b + 32) True h3"
  have t4: "heap_start h4 = b"
    "blk_size h4 b = 16" "\<not> blk_isFree h4 b" "blk_next h4 b = b + 32"
    "blk_size h4 (b + 32) = 16" "blk_isFree h4 (b + 32)" "blk_next h4 (b + 32) = b + 64"
    "blk_size h4 (b + 64) = 16" "\<not> blk_isFree h4 (b + 64)" "blk_next h4 (b + 64) = 0"
    using t3 by (simp_all add: h4_def other_block[OF so(2)] other_block[OF so(5)])
  have c4: "chain h4 (heap_start h4) [b, b + 32, b + 64]" using t4 a(1) b2(1) b3(1) by simp
  have p4: "mergePrev h4 (b + 32) (heap_start h4) = Some h4"
    using mergePrev_chain[OF c4, of "b + 32"] t4 b2(1) by simp
  have B24: "B - sizeof_MemoryBlock = b + 32" by (simp add: b2(2) sizeof_MemoryBlock_def)
  have f4: "free B h3 = Some h4"
  proof -
    have "mergeFreeBlocks (b + 32) h4 = Some h4"
      using mergeFreeBlocks_no_next[of h4 "b + 32"] p4 t4 by simp
    moreover have "mergeBlocks (b + 32) h4 = Some h4"
      by (rule mergeBlocks_stop) (simp add: t4)
    ultimately show ?thesis
      unfolding free_unfold[OF assms(5) B24] h4_def by simp
  qed
  \<comment> \<open>release of the last block: the middle block absorbs it\<close>
  define g5 where "g5 = set_isFree (b + 64) True h4"
  have u5: "heap_start g5 = b"
    "blk_size g5 b = 16" "\<not> blk_isFree g5 b" "blk_next g5 b = b + 32"
    "blk_size g5 (b + 32) = 16" "blk_isFree g5 (b + 32)" "blk_next g5 (b + 32) = b + 64"
    "blk_size g5 (b + 64) = 16" "blk_isFree g5 (b + 64)" "blk_next g5 (b + 64) = 0"
    using t4 by (simp_all add: g5_def other_block[OF so(4)] other_block[OF so(6)])
  define h5 where "h5 = absorb (b + 32) (b + 64) g5"
  have t5: "heap_start h5 = b"
    "blk_size h5 b = 16" "\<not> blk_isFree h5 b" "blk_next h5 b = b + 32"
    "blk_size h5 (b + 32) = 56" "blk_isFree h5 (b + 32)" "blk_next h5 (b + 32) = 0"
    "blk_isFree h5 (b + 64)" "blk_next h5 (b + 64) = 0"
    using u5
    by (simp_all add: h5_def absorb_def Let_def sizeof_MemoryBlock_def
        other_block[OF so(2)] other_block[OF so(5)])
  have c5: "chain g5 (heap_start g5) [b, b + 32, b + 64]" using u5 a(1) b2(1) b3(1) by simp
  have p5: "mergePrev g5 (b + 64) (heap_start g5) = Some h5"
    using mergePrev_chain[OF c5, of "b + 64"] u5 by (simp add: h5_def)
  have C24: "C - sizeof_MemoryBlock = b + 64" by (simp add: b3(2) sizeof_MemoryBlock_def)
  have f5: "free C h4 = Some h5"
  proof -
    have "mergeFreeBlocks (b + 64) g5 = Some h5"
      using mergeFreeBlocks_no_next[of g5 "b + 64"] p5 u5 by simp
    moreover have "mergeBlocks (b + 64) h5 = Some h5"
      by (rule mergeBlocks_stop) (simp add: t5)
    ultimately show ?thesis
      unfolding free_unfold[OF assms(7) C24] g5_def by simp
  qed
  \<comment> \<open>release of the first block: it absorbs the merged successor\<close>
  define g6 where "g6 = set_isFree b True h5"
  have u6: "heap_start g6 = b"
    "blk_size g6 b = 16" "blk_isFree g6 b" "blk_next g6 b = b + 32"
    "blk_size g6 (b + 32) = 56" "blk_isFree g6 (b + 32)" "blk_next g6 (b + 32) = 0"
    using t5 by (simp_all add: g6_def other_block[OF so(1)])
  define h6 where "h6 = absorb b (b + 32) g6"
  have t6: "heap_start h6 = b" "blk_size h6 b = 96" "blk_isFree h6 b" "blk_next h6 b = 0"
    using u6 by (simp_all add: h6_def absorb_def Let_def sizeof_MemoryBlock_def other_block[OF so(1)])
  have c6: "chain h6 (heap_start h6) [b]" using t6 a(1) by simp
  have p6: "mergePrev h6 b (heap_start h6) = Some h6"
    using mergePrev_chain[OF c6, of b] t6 a(1) by simp
  have A24: "A - sizeof_MemoryBlock = b" by (simp add: a(2) sizeof_MemoryBlock_def)
  have f6: "free A h5 = Some h6"
  proof -
    have "mergeFreeBlocks b g6 = Some h6"
      using mergeFreeBlocks_next[of g6 b] p6 u6 b2(1) by (simp add: h6_def)
    moreover have "mergeBlocks b h6 = Some h6"
      by (rule mergeBlocks_stop) (simp add: t6)
    ultimately show ?thesis
      unfolding free_unfold[OF assms(3) A24] g6_def by simp
  qed
  \<comment> \<open>the statistics walk\<close>
  obtain st where s: "memoryInfo h6 = Some st" "blockCount st = 1" "freeBlockCount st = 1"
    using memoryInfo_loop_chain[OF c6,
        of "\<lparr>totalMemory = 0, freeMemory = 0, usedMemory = 0, blockCount = 0, freeBlockCount = 0\<rparr>"]
      t6
    by (auto simp add: memoryInfo_def)
  have "chain h6 (heap_start h6) [A - 24]" "blk_isFree h6 (A - 24)"
    using c6 t6 by (simp_all add: a(2))
  with f4 f5 f6 s have "\<exists>h4 h5 h6 st. free B h3 = Some h4 \<and> free C h4 = Some h5 \<and>
      free A h5 = Some h6 \<and> chain h6 (heap_start h6) [A - 24] \<and> blk_isFree h6 (A - 24) \<and>
      memoryInfo h6 = Some st \<and> blockCount st = 1 \<and> freeBlockCount st = 1"
    by blast
  moreover have "B = A + 32" "C = A + 64" by (simp_all add: a(2) b2(2) b3(2))
  ultimately show ?thesis by blast
qed

theorem middle_out_release_coalesces_witness:
  "heap_start arena0 = 0 \<and>
   malloc 4 arena0 = Some (4120, grown 4096 16 arena0) \<and> (4120 :: addr) \<noteq> 0 \<and>
   malloc 4 (grown 4096 16 arena0) =
     Some (4152, set_next 4096 4128 (grown 4128 16 (grown 4096 16 arena0))) \<and>
   (4152 :: addr) \<noteq> 0 \<and>
   malloc 4 (set_next 4096 4128 (grown 4128 16 (grown 4096 16 arena0))) =
     Some (4184, set_next 4128 4160 (grown 4160 16
            (set_next 4096 4128 (grown 4128 16 (grown 4096 16 arena0))))) \<and>
   (4184 :: addr) \<noteq> 0 \<and> (4152 :: addr) = 4120 + 32 \<and> (4184 :: addr) = 4120 + 64 \<and>
   (\<exists>h4 h5 h6 st.
      free 4152 (set_next 4128 4160 (grown 4160 16
            (set_next 4096 4128 (grown 4128 16 (grown 4096 16 arena0))))) = Some h4 \<and>
      free 4184 h4 = Some h5 \<and> free 4120 h5 = Some h6 \<and>
      chain h6 (heap_start h6) [4120 - 24] \<and> blk_isFree h6 (4120 - 24) \<and>
      memoryInfo h6 = Some st \<and> blockCount st = 1 \<and> freeBlockCount st = 1)"
proof -
  let ?h1 = "grown 4096 16 arena0"
  let ?h2 = "set_next 4096 4128 (grown 4128 16 ?h1)"
  let ?h3 = "set_next 4128 4160 (grown 4160 16 ?h2)"
  have s: "sep 4128 4096" "sep 4096 4128" "sep 4160 4096" "sep 4096 4160"
    "sep 4160 4128" "sep 4128 4160"
    by (simp_all add: sep_def)
  have m1: "malloc 4 arena0 = Some (4120, ?h1)"
    using malloc_arena0[of 4] by (simp add: span4)
  have c1: "chain ?h1 (heap_start ?h1) [4096]" by simp
  have m2: "malloc 4 ?h1 = Some (4152, ?h2)"
    using malloc_miss_granted[OF _ _ c1, of 4] s
    by (simp add: span4 first_fit_def allocSize16 granted_always)
  have c2: "chain ?h2 (heap_start ?h2) [4096, 4128]"
    by (simp add: grown_other[OF s(1)] other_block[OF s(2)])
  have m3: "malloc 4 ?h2 = Some (4184, ?h3)"
    using malloc_miss_granted[OF _ _ c2, of 4] s
    by (simp add: span4 first_fit_def allocSize16 granted_always
        grown_other[OF s(1)] other_block[OF s(2)])
  show ?thesis
    using middle_out_release_coalesces[of arena0 4120 ?h1 4152 ?h2 4184 ?h3] m1 m2 m3
    by simp
qed

subsection \<open>Reallocation and the bytes of the old block\<close>

text \<open>
  C5, at a failing input. On the empty arena \<open>malloc(8)\<close> returns \<open>p = 4120\<close> in a block
  whose capacity field is 16, so \<open>realloc(p, 16)\<close> returns \<open>p\<close> unchanged and leaves the
  state alone. The caller fills its 16 bytes with \<open>0xAA\<close>. Then \<open>realloc(p, 24)\<close> grows
  the arena: the new header is written at the old break, which is \<open>p + 8\<close>, inside the 16
  bytes the capacity field promises, and only then are the 16 bytes copied. The byte at offset 8
  of the returned block is 32 (the new block's size field), not the \<open>0xAA\<close> of the original.
\<close>

theorem realloc_payload_tail_clobbered:
  "malloc 8 arena0 = Some (4120, grown 4096 16 arena0) \<and>
   blk_size (grown 4096 16 arena0) (4120 - sizeof_MemoryBlock) = 16 \<and>
   realloc 4120 16 (grown 4096 16 arena0) = Some (4120, grown 4096 16 arena0) \<and>
   mem (memset_heap 4120 170 16 (grown 4096 16 arena0)) (4120 + 8) = 170 \<and>
   (\<exists>h'. realloc 4120 24 (memset_heap 4120 170 16 (grown 4096 16 arena0)) = Some (4152, h') \<and>
         mem h' (4152 + 8) = 32)"
proof -
  let ?h1 = "grown 4096 16 arena0"
  define H where "H = memset_heap 4120 170 16 ?h1"
  have m1: "malloc 8 arena0 = Some (4120, ?h1)"
    using malloc_arena0[of 8] by (simp add: span8)
  have blk: "(4120 :: addr) - sizeof_MemoryBlock = 4096" by (simp add: sizeof_MemoryBlock_def)
  have nz: "(4120 :: addr) \<noteq> 0" by simp
  have r1: "realloc 4120 16 ?h1 = Some (4120, ?h1)"
    by (rule realloc_fits) (simp_all add: blk)
  have w: "mem H (4120 + 8) = 170" by (simp add: H_def memset_heap_def memset_def)
  have tH: "heap_start H = 4096" "brk H = 4128" "os_grants H = (\<lambda>_ _. True)"
    "blk_size H 4096 = 16" "\<not> blk_isFree H 4096" "blk_next H 4096 = 0"
    by (simp_all add: H_def allocSize16 blk_size_memset_out blk_next_memset_out
        blk_isFree_memset_out)
  have cH: "chain H (heap_start H) [4096]" using tH by simp
  define h2 where "h2 = set_next 4096 4128 (grown 4128 32 H)"
  have m2: "malloc 24 H = Some (4152, h2)"
    using malloc_miss_granted[OF _ _ cH, of 24] tH sep_4128_4096
    by (simp add: span24 first_fit_def granted_always h2_def)
  have t2: "heap_start h2 = 4096"
    "blk_size h2 4096 = 16" "\<not> blk_isFree h2 4096" "blk_next h2 4096 = 4128"
    "blk_size h2 4128 = 32" "\<not> blk_isFree h2 4128" "blk_next h2 4128 = 0"
    using tH
    by (simp_all add: h2_def grown_other[OF sep_4128_4096(1)] other_block[OF sep_4128_4096(2)])
  have b2: "mem h2 4128 = 32"
    by (simp add: h2_def grown_def set_next_def set_isFree_def set_size_def store64_def)
  define h3 where "h3 = memcpy_heap 4152 4120 16 h2"
  have t3: "heap_start h3 = 4096"
    "blk_size h3 4096 = 16" "\<not> blk_isFree h3 4096" "blk_next h3 4096 = 4128"
    "blk_size h3 4128 = 32" "\<not> blk_isFree h3 4128" "blk_next h3 4128 = 0"
    using t2
    by (simp_all add: h3_def blk_size_memcpy_out blk_next_memcpy_out blk_isFree_memcpy_out)
  have b3: "mem h3 (4152 + 8) = 32"
    using b2 by (simp add: h3_def memcpy_heap_def memcpy_def)
  define h4 where "h4 = set_isFree 4096 True h3"
  have t4: "heap_start h4 = 4096"
    "blk_size h4 4096 = 16" "blk_isFree h4 4096" "blk_next h4 4096 = 4128"
    "blk_size h4 4128 = 32" "\<not> blk_isFree h4 4128" "blk_next h4 4128 = 0"
    using t3 by (simp_all add: h4_def other_block[OF sep_4128_4096(2)])
  have c4: "chain h4 (heap_start h4) [4096, 4128]" using t4 by simp
  have p4: "mergePrev h4 4096 (heap_start h4) = Some h4"
    using mergePrev_chain[OF c4, of 4096] t4 by simp
  have f4: "free 4120 h3 = Some h4"
  proof -
    have "mergeFreeBlocks 4096 h4 = Some h4"
      using mergeFreeBlocks_no_next[of h4 4096] p4 t4 by simp
    moreover have "mergeBlocks 4096 h4 = Some h4"
      by (rule mergeBlocks_stop) (simp add: t4)
    ultimately show ?thesis
      unfolding free_unfold[OF nz blk] h4_def by simp
  qed
  have b4: "mem h4 (4152 + 8) = 32"
    using b3 by (simp add: h4_def set_isFree_def)
  have r2: "realloc 4120 24 H = Some (4152, h4)"
    using realloc_moves[OF nz _ blk _ m2] tH t2 f4 by (simp add: h3_def)
  show ?thesis
    using m1 r1 w r2 b4 by (simp add: blk H_def)
qed

subsection \<open>Adjacent free blocks\<close>

text \<open>
  C10, at a failing input. Nineteen calls on the empty arena, each \<open>free\<close> and the
  \<open>realloc\<close> on a pointer that is allocated at that moment. Four 8-byte blocks
  (at 4096, 4128, 4160, 4192) are followed by the blocks \<open>Y\<close> (4224) and \<open>Z\<close> (4256),
  two 40-byte blocks (4288, 4352) and a last block \<open>N\<close> (4416). The two 40-byte blocks are
  released, merge into one block \<open>O\<close> of capacity 120, and \<open>malloc(112)\<close> takes it again.
  Then \<open>N\<close>, \<open>Z\<close> and the four leading blocks are released; the four merge into one free
  block \<open>X\<close> of capacity 136. Finally \<open>realloc\<close> moves \<open>O\<close> to 121 bytes: the search
  picks \<open>X\<close>, and \<open>memcpy\<close> copies the 120 bytes that the capacity field of \<open>O\<close>
  promises. These end with the header of \<open>N\<close> (free), and they land on the header of
  \<open>Y\<close>, 104 bytes into the payload of \<open>X\<close>. In the final chain \<open>X\<close>, \<open>Y\<close>, \<open>Z\<close> the
  block \<open>Y\<close>, which was never released, is marked free, and so is its successor \<open>Z\<close>:
  two consecutive blocks of the chain are both free.
\<close>

theorem realloc_leaves_adjacent_free_blocks:
  "\<exists>h. run [Malloc 8, Malloc 8, Malloc 8, Malloc 8, Malloc 8, Malloc 8, Malloc 40, Malloc 40,
              Malloc 8, Free 4312, Free 4376, Malloc 112, Free 4440, Free 4280,
              Free 4120, Free 4152, Free 4184, Free 4216, Realloc 4312 121] arena0 =
         Some ([4120, 4152, 4184, 4216, 4248, 4280, 4312, 4376, 4440, 0, 0, 4312,
                0, 0, 0, 0, 0, 0, 4120], h) \<and>
       chain h (heap_start h) [4096, 4224, 4256] \<and>
       \<not> blk_isFree h 4096 \<and> blk_isFree h 4224 \<and> blk_isFree h 4256"
proof -
  \<comment> \<open>\<open>malloc(8)\<close>\<close>
  define s1 where "s1 = grown 4096 16 arena0"
  have os1: "malloc 8 arena0 = Some (4120, s1)"
    using malloc_arena0[of 8] by (simp add: span_8 s1_def)
  have ts1:
    "heap_start s1 = 4096" "brk s1 = 4128" "os_grants s1 = (\<lambda>_ _. True)"
    "blk_size s1 4096 = 16" "\<not> blk_isFree s1 4096" "blk_next s1 4096 = 0"
    by (simp_all add: s1_def alloc_sizes)
  have cs1: "chain s1 (heap_start s1) [4096]"
    using ts1 by simp
  \<comment> \<open>\<open>malloc(8)\<close>\<close>
  define s2 where "s2 = set_next 4096 4128 (grown 4128 16 s1)"
  have os2: "malloc 8 s1 = Some (4152, s2)"
    using malloc_miss_granted[OF _ _ cs1, of 8] ts1
    by (simp add: span_8 first_fit_def granted_always s2_def sep_blocks)
  have ts2:
    "heap_start s2 = 4096" "brk s2 = 4160" "os_grants s2 = (\<lambda>_ _. True)"
    "blk_size s2 4096 = 16" "\<not> blk_isFree s2 4096" "blk_next s2 4096 = 4128"
    "blk_size s2 4128 = 16" "\<not> blk_isFree s2 4128" "blk_next s2 4128 = 0"
    using ts1
    by (simp_all add: s2_def alloc_sizes other_block grown_other sep_blocks)
  have cs2: "chain s2 (heap_start s2) [4096, 4128]"
    using ts2 by simp
  \<comment> \<open>\<open>malloc(8)\<close>\<close>
  define s3 where "s3 = set_next 4128 4160 (grown 4160 16 s2)"
  have os3: "malloc 8 s2 = Some (4184, s3)"
    using malloc_miss_granted[OF _ _ cs2, of 8] ts2
    by (simp add: span_8 first_fit_def granted_always s3_def sep_blocks)
  have ts3:
    "heap_start s3 = 4096" "brk s3 = 4192" "os_grants s3 = (\<lambda>_ _. True)"
    "blk_size s3 4096 = 16" "\<not> blk_isFree s3 4096" "blk_next s3 4096 = 4128"
    "blk_size s3 4128 = 16" "\<not> blk_isFree s3 4128" "blk_next s3 4128 = 4160"
    "blk_size s3 4160 = 16" "\<not> blk_isFree s3 4160" "blk_next s3 4160 = 0"
    using ts2
    by (simp_all add: s3_def alloc_sizes other_block grown_other sep_blocks)
  have cs3: "chain s3 (heap_start s3) [4096, 4128, 4160]"
    using ts3 by simp
  \<comment> \<open>\<open>malloc(8)\<close>\<close>
  define s4 where "s4 = set_next 4160 4192 (grown 4192 16 s3)"
  have os4: "malloc 8 s3 = Some (4216, s4)"
    using malloc_miss_granted[OF _ _ cs3, of 8] ts3
    by (simp add: span_8 first_fit_def granted_always s4_def sep_blocks)
  have ts4:
    "heap_start s4 = 4096" "brk s4 = 4224" "os_grants s4 = (\<lambda>_ _. True)"
    "blk_size s4 4096 = 16" "\<not> blk_isFree s4 4096" "blk_next s4 4096 = 4128"
    "blk_size s4 4128 = 16" "\<not> blk_isFree s4 4128" "blk_next s4 4128 = 4160"
    "blk_size s4 4160 = 16" "\<not> blk_isFree s4 4160" "blk_next s4 4160 = 4192"
    "blk_size s4 4192 = 16" "\<not> blk_isFree s4 4192" "blk_next s4 4192 = 0"
    using ts3
    by (simp_all add: s4_def alloc_sizes other_block grown_other sep_blocks)
  have cs4: "chain s4 (heap_start s4) [4096, 4128, 4160, 4192]"
    using ts4 by simp
  \<comment> \<open>\<open>malloc(8)\<close>\<close>
  define s5 where "s5 = set_next 4192 4224 (grown 4224 16 s4)"
  have os5: "malloc 8 s4 = Some (4248, s5)"
    using malloc_miss_granted[OF _ _ cs4, of 8] ts4
    by (simp add: span_8 first_fit_def granted_always s5_def sep_blocks)
  have ts5:
    "heap_start s5 = 4096" "brk s5 = 4256" "os_grants s5 = (\<lambda>_ _. True)"
    "blk_size s5 4096 = 16" "\<not> blk_isFree s5 4096" "blk_next s5 4096 = 4128"
    "blk_size s5 4128 = 16" "\<not> blk_isFree s5 4128" "blk_next s5 4128 = 4160"
    "blk_size s5 4160 = 16" "\<not> blk_isFree s5 4160" "blk_next s5 4160 = 4192"
    "blk_size s5 4192 = 16" "\<not> blk_isFree s5 4192" "blk_next s5 4192 = 4224"
    "blk_size s5 4224 = 16" "\<not> blk_isFree s5 4224" "blk_next s5 4224 = 0"
    using ts4
    by (simp_all add: s5_def alloc_sizes other_block grown_other sep_blocks)
  have cs5: "chain s5 (heap_start s5) [4096, 4128, 4160, 4192, 4224]"
    using ts5 by simp
  \<comment> \<open>\<open>malloc(8)\<close>\<close>
  define s6 where "s6 = set_next 4224 4256 (grown 4256 16 s5)"
  have os6: "malloc 8 s5 = Some (4280, s6)"
    using malloc_miss_granted[OF _ _ cs5, of 8] ts5
    by (simp add: span_8 first_fit_def granted_always s6_def sep_blocks)
  have ts6:
    "heap_start s6 = 4096" "brk s6 = 4288" "os_grants s6 = (\<lambda>_ _. True)"
    "blk_size s6 4096 = 16" "\<not> blk_isFree s6 4096" "blk_next s6 4096 = 4128"
    "blk_size s6 4128 = 16" "\<not> blk_isFree s6 4128" "blk_next s6 4128 = 4160"
    "blk_size s6 4160 = 16" "\<not> blk_isFree s6 4160" "blk_next s6 4160 = 4192"
    "blk_size s6 4192 = 16" "\<not> blk_isFree s6 4192" "blk_next s6 4192 = 4224"
    "blk_size s6 4224 = 16" "\<not> blk_isFree s6 4224" "blk_next s6 4224 = 4256"
    "blk_size s6 4256 = 16" "\<not> blk_isFree s6 4256" "blk_next s6 4256 = 0"
    using ts5
    by (simp_all add: s6_def alloc_sizes other_block grown_other sep_blocks)
  have cs6: "chain s6 (heap_start s6) [4096, 4128, 4160, 4192, 4224, 4256]"
    using ts6 by simp
  \<comment> \<open>\<open>malloc(40)\<close>\<close>
  define s7 where "s7 = set_next 4256 4288 (grown 4288 48 s6)"
  have os7: "malloc 40 s6 = Some (4312, s7)"
    using malloc_miss_granted[OF _ _ cs6, of 40] ts6
    by (simp add: span_40 first_fit_def granted_always s7_def sep_blocks)
  have ts7:
    "heap_start s7 = 4096" "brk s7 = 4352" "os_grants s7 = (\<lambda>_ _. True)"
    "blk_size s7 4096 = 16" "\<not> blk_isFree s7 4096" "blk_next s7 4096 = 4128"
    "blk_size s7 4128 = 16" "\<not> blk_isFree s7 4128" "blk_next s7 4128 = 4160"
    "blk_size s7 4160 = 16" "\<not> blk_isFree s7 4160" "blk_next s7 4160 = 4192"
    "blk_size s7 4192 = 16" "\<not> blk_isFree s7 4192" "blk_next s7 4192 = 4224"
    "blk_size s7 4224 = 16" "\<not> blk_isFree s7 4224" "blk_next s7 4224 = 4256"
    "blk_size s7 4256 = 16" "\<not> blk_isFree s7 4256" "blk_next s7 4256 = 4288"
    "blk_size s7 4288 = 48" "\<not> blk_isFree s7 4288" "blk_next s7 4288 = 0"
    using ts6
    by (simp_all add: s7_def alloc_sizes other_block grown_other sep_blocks)
  have cs7: "chain s7 (heap_start s7) [4096, 4128, 4160, 4192, 4224, 4256, 4288]"
    using ts7 by simp
  \<comment> \<open>\<open>malloc(40)\<close>\<close>
  define s8 where "s8 = set_next 4288 4352 (grown 4352 48 s7)"
  have os8: "malloc 40 s7 = Some (4376, s8)"
    using malloc_miss_granted[OF _ _ cs7, of 40] ts7
    by (simp add: span_40 first_fit_def granted_always s8_def sep_blocks)
  have ts8:
    "heap_start s8 = 4096" "brk s8 = 4416" "os_grants s8 = (\<lambda>_ _. True)"
    "blk_size s8 4096 = 16" "\<not> blk_isFree s8 4096" "blk_next s8 4096 = 4128"
    "blk_size s8 4128 = 16" "\<not> blk_isFree s8 4128" "blk_next s8 4128 = 4160"
    "blk_size s8 4160 = 16" "\<not> blk_isFree s8 4160" "blk_next s8 4160 = 4192"
    "blk_size s8 4192 = 16" "\<not> blk_isFree s8 4192" "blk_next s8 4192 = 4224"
    "blk_size s8 4224 = 16" "\<not> blk_isFree s8 4224" "blk_next s8 4224 = 4256"
    "blk_size s8 4256 = 16" "\<not> blk_isFree s8 4256" "blk_next s8 4256 = 4288"
    "blk_size s8 4288 = 48" "\<not> blk_isFree s8 4288" "blk_next s8 4288 = 4352"
    "blk_size s8 4352 = 48" "\<not> blk_isFree s8 4352" "blk_next s8 4352 = 0"
    using ts7
    by (simp_all add: s8_def alloc_sizes other_block grown_other sep_blocks)
  have cs8: "chain s8 (heap_start s8) [4096, 4128, 4160, 4192, 4224, 4256, 4288, 4352]"
    using ts8 by simp
  \<comment> \<open>\<open>malloc(8)\<close>\<close>
  define s9 where "s9 = set_next 4352 4416 (grown 4416 16 s8)"
  have os9: "malloc 8 s8 = Some (4440, s9)"
    using malloc_miss_granted[OF _ _ cs8, of 8] ts8
    by (simp add: span_8 first_fit_def granted_always s9_def sep_blocks)
  have ts9:
    "heap_start s9 = 4096" "brk s9 = 4448" "os_grants s9 = (\<lambda>_ _. True)"
    "blk_size s9 4096 = 16" "\<not> blk_isFree s9 4096" "blk_next s9 4096 = 4128"
    "blk_size s9 4128 = 16" "\<not> blk_isFree s9 4128" "blk_next s9 4128 = 4160"
    "blk_size s9 4160 = 16" "\<not> blk_isFree s9 4160" "blk_next s9 4160 = 4192"
    "blk_size s9 4192 = 16" "\<not> blk_isFree s9 4192" "blk_next s9 4192 = 4224"
    "blk_size s9 4224 = 16" "\<not> blk_isFree s9 4224" "blk_next s9 4224 = 4256"
    "blk_size s9 4256 = 16" "\<not> blk_isFree s9 4256" "blk_next s9 4256 = 4288"
    "blk_size s9 4288 = 48" "\<not> blk_isFree s9 4288" "blk_next s9 4288 = 4352"
    "blk_size s9 4352 = 48" "\<not> blk_isFree s9 4352" "blk_next s9 4352 = 4416"
    "blk_size s9 4416 = 16" "\<not> blk_isFree s9 4416" "blk_next s9 4416 = 0"
    using ts8
    by (simp_all add: s9_def alloc_sizes other_block grown_other sep_blocks)
  have cs9: "chain s9 (heap_start s9) [4096, 4128, 4160, 4192, 4224, 4256, 4288, 4352, 4416]"
    using ts9 by simp
  \<comment> \<open>\<open>free(4312)\<close>, the block at 4288\<close>
  define g10 where "g10 = set_isFree 4288 True s9"
  have tg10:
    "heap_start g10 = 4096" "brk g10 = 4448" "os_grants g10 = (\<lambda>_ _. True)"
    "blk_size g10 4096 = 16" "\<not> blk_isFree g10 4096" "blk_next g10 4096 = 4128"
    "blk_size g10 4128 = 16" "\<not> blk_isFree g10 4128" "blk_next g10 4128 = 4160"
    "blk_size g10 4160 = 16" "\<not> blk_isFree g10 4160" "blk_next g10 4160 = 4192"
    "blk_size g10 4192 = 16" "\<not> blk_isFree g10 4192" "blk_next g10 4192 = 4224"
    "blk_size g10 4224 = 16" "\<not> blk_isFree g10 4224" "blk_next g10 4224 = 4256"
    "blk_size g10 4256 = 16" "\<not> blk_isFree g10 4256" "blk_next g10 4256 = 4288"
    "blk_size g10 4288 = 48" "blk_isFree g10 4288" "blk_next g10 4288 = 4352"
    "blk_size g10 4352 = 48" "\<not> blk_isFree g10 4352" "blk_next g10 4352 = 4416"
    "blk_size g10 4416 = 16" "\<not> blk_isFree g10 4416" "blk_next g10 4416 = 0"
    using ts9
    by (simp_all add: g10_def other_block sep_blocks)
  have cg10: "chain g10 (heap_start g10) [4096, 4128, 4160, 4192, 4224, 4256, 4288, 4352, 4416]"
    using tg10 by simp
  define s10 where "s10 = g10"
  have ts10:
    "heap_start s10 = 4096" "brk s10 = 4448" "os_grants s10 = (\<lambda>_ _. True)"
    "blk_size s10 4096 = 16" "\<not> blk_isFree s10 4096" "blk_next s10 4096 = 4128"
    "blk_size s10 4128 = 16" "\<not> blk_isFree s10 4128" "blk_next s10 4128 = 4160"
    "blk_size s10 4160 = 16" "\<not> blk_isFree s10 4160" "blk_next s10 4160 = 4192"
    "blk_size s10 4192 = 16" "\<not> blk_isFree s10 4192" "blk_next s10 4192 = 4224"
    "blk_size s10 4224 = 16" "\<not> blk_isFree s10 4224" "blk_next s10 4224 = 4256"
    "blk_size s10 4256 = 16" "\<not> blk_isFree s10 4256" "blk_next s10 4256 = 4288"
    "blk_size s10 4288 = 48" "blk_isFree s10 4288" "blk_next s10 4288 = 4352"
    "blk_size s10 4352 = 48" "\<not> blk_isFree s10 4352" "blk_next s10 4352 = 4416"
    "blk_size s10 4416 = 16" "\<not> blk_isFree s10 4416" "blk_next s10 4416 = 0"
    using tg10
    by (simp_all add: s10_def)
  have ps10: "mergePrev g10 4288 (heap_start g10) = Some s10"
    using mergePrev_chain[OF cg10, of 4288] tg10 by (simp add: s10_def)
  have os10: "free 4312 s9 = Some s10"
  proof -
    have nz: "(4312 :: addr) \<noteq> 0" by simp
    have blk: "(4312 :: addr) - sizeof_MemoryBlock = 4288" by (simp add: sizeof_MemoryBlock_def)
    have "mergeFreeBlocks 4288 g10 = Some s10"
      using mergeFreeBlocks_no_next[of g10 4288] ps10 tg10 by simp
    moreover have "mergeBlocks 4288 s10 = Some s10"
      by (rule mergeBlocks_stop) (simp add: ts10)
    ultimately show ?thesis
      unfolding free_unfold[OF nz blk] g10_def by simp
  qed
  have cs10: "chain s10 (heap_start s10) [4096, 4128, 4160, 4192, 4224, 4256, 4288, 4352, 4416]"
    using ts10 by simp
  \<comment> \<open>\<open>free(4376)\<close>, the block at 4352\<close>
  define g11 where "g11 = set_isFree 4352 True s10"
  have tg11:
    "heap_start g11 = 4096" "brk g11 = 4448" "os_grants g11 = (\<lambda>_ _. True)"
    "blk_size g11 4096 = 16" "\<not> blk_isFree g11 4096" "blk_next g11 4096 = 4128"
    "blk_size g11 4128 = 16" "\<not> blk_isFree g11 4128" "blk_next g11 4128 = 4160"
    "blk_size g11 4160 = 16" "\<not> blk_isFree g11 4160" "blk_next g11 4160 = 4192"
    "blk_size g11 4192 = 16" "\<not> blk_isFree g11 4192" "blk_next g11 4192 = 4224"
    "blk_size g11 4224 = 16" "\<not> blk_isFree g11 4224" "blk_next g11 4224 = 4256"
    "blk_size g11 4256 = 16" "\<not> blk_isFree g11 4256" "blk_next g11 4256 = 4288"
    "blk_size g11 4288 = 48" "blk_isFree g11 4288" "blk_next g11 4288 = 4352"
    "blk_size g11 4352 = 48" "blk_isFree g11 4352" "blk_next g11 4352 = 4416"
    "blk_size g11 4416 = 16" "\<not> blk_isFree g11 4416" "blk_next g11 4416 = 0"
    using ts10
    by (simp_all add: g11_def other_block sep_blocks)
  have cg11: "chain g11 (heap_start g11) [4096, 4128, 4160, 4192, 4224, 4256, 4288, 4352, 4416]"
    using tg11 by simp
  define s11 where "s11 = absorb 4288 4352 g11"
  have ts11:
    "heap_start s11 = 4096" "brk s11 = 4448" "os_grants s11 = (\<lambda>_ _. True)"
    "blk_size s11 4096 = 16" "\<not> blk_isFree s11 4096" "blk_next s11 4096 = 4128"
    "blk_size s11 4128 = 16" "\<not> blk_isFree s11 4128" "blk_next s11 4128 = 4160"
    "blk_size s11 4160 = 16" "\<not> blk_isFree s11 4160" "blk_next s11 4160 = 4192"
    "blk_size s11 4192 = 16" "\<not> blk_isFree s11 4192" "blk_next s11 4192 = 4224"
    "blk_size s11 4224 = 16" "\<not> blk_isFree s11 4224" "blk_next s11 4224 = 4256"
    "blk_size s11 4256 = 16" "\<not> blk_isFree s11 4256" "blk_next s11 4256 = 4288"
    "blk_size s11 4288 = 120" "blk_isFree s11 4288" "blk_next s11 4288 = 4416"
    "blk_size s11 4352 = 48" "blk_isFree s11 4352" "blk_next s11 4352 = 4416"
    "blk_size s11 4416 = 16" "\<not> blk_isFree s11 4416" "blk_next s11 4416 = 0"
    using tg11
    by (simp_all add: s11_def absorb_def Let_def sizeof_MemoryBlock_def other_block sep_blocks)
  have ps11: "mergePrev g11 4352 (heap_start g11) = Some s11"
    using mergePrev_chain[OF cg11, of 4352] tg11 by (simp add: s11_def)
  have os11: "free 4376 s10 = Some s11"
  proof -
    have nz: "(4376 :: addr) \<noteq> 0" by simp
    have blk: "(4376 :: addr) - sizeof_MemoryBlock = 4352" by (simp add: sizeof_MemoryBlock_def)
    have "mergeFreeBlocks 4352 g11 = Some s11"
      using mergeFreeBlocks_no_next[of g11 4352] ps11 tg11 by simp
    moreover have "mergeBlocks 4352 s11 = Some s11"
      by (rule mergeBlocks_stop) (simp add: ts11)
    ultimately show ?thesis
      unfolding free_unfold[OF nz blk] g11_def by simp
  qed
  have cs11: "chain s11 (heap_start s11) [4096, 4128, 4160, 4192, 4224, 4256, 4288, 4416]"
    using ts11 by simp
  \<comment> \<open>\<open>malloc(112)\<close>\<close>
  define s12 where "s12 = set_isFree 4288 False s11"
  have os12: "malloc 112 s11 = Some (4312, s12)"
    using malloc_hit[OF _ _ cs11, of 112 4288] ts11
    by (simp add: span_112 first_fit_def splitBlock_def sizeof_MemoryBlock_def s12_def)
  have ts12:
    "heap_start s12 = 4096" "brk s12 = 4448" "os_grants s12 = (\<lambda>_ _. True)"
    "blk_size s12 4096 = 16" "\<not> blk_isFree s12 4096" "blk_next s12 4096 = 4128"
    "blk_size s12 4128 = 16" "\<not> blk_isFree s12 4128" "blk_next s12 4128 = 4160"
    "blk_size s12 4160 = 16" "\<not> blk_isFree s12 4160" "blk_next s12 4160 = 4192"
    "blk_size s12 4192 = 16" "\<not> blk_isFree s12 4192" "blk_next s12 4192 = 4224"
    "blk_size s12 4224 = 16" "\<not> blk_isFree s12 4224" "blk_next s12 4224 = 4256"
    "blk_size s12 4256 = 16" "\<not> blk_isFree s12 4256" "blk_next s12 4256 = 4288"
    "blk_size s12 4288 = 120" "\<not> blk_isFree s12 4288" "blk_next s12 4288 = 4416"
    "blk_size s12 4352 = 48" "blk_isFree s12 4352" "blk_next s12 4352 = 4416"
    "blk_size s12 4416 = 16" "\<not> blk_isFree s12 4416" "blk_next s12 4416 = 0"
    using ts11
    by (simp_all add: s12_def other_block sep_blocks)
  have cs12: "chain s12 (heap_start s12) [4096, 4128, 4160, 4192, 4224, 4256, 4288, 4416]"
    using ts12 by simp
  \<comment> \<open>\<open>free(4440)\<close>, the block at 4416\<close>
  define g13 where "g13 = set_isFree 4416 True s12"
  have tg13:
    "heap_start g13 = 4096" "brk g13 = 4448" "os_grants g13 = (\<lambda>_ _. True)"
    "blk_size g13 4096 = 16" "\<not> blk_isFree g13 4096" "blk_next g13 4096 = 4128"
    "blk_size g13 4128 = 16" "\<not> blk_isFree g13 4128" "blk_next g13 4128 = 4160"
    "blk_size g13 4160 = 16" "\<not> blk_isFree g13 4160" "blk_next g13 4160 = 4192"
    "blk_size g13 4192 = 16" "\<not> blk_isFree g13 4192" "blk_next g13 4192 = 4224"
    "blk_size g13 4224 = 16" "\<not> blk_isFree g13 4224" "blk_next g13 4224 = 4256"
    "blk_size g13 4256 = 16" "\<not> blk_isFree g13 4256" "blk_next g13 4256 = 4288"
    "blk_size g13 4288 = 120" "\<not> blk_isFree g13 4288" "blk_next g13 4288 = 4416"
    "blk_size g13 4352 = 48" "blk_isFree g13 4352" "blk_next g13 4352 = 4416"
    "blk_size g13 4416 = 16" "blk_isFree g13 4416" "blk_next g13 4416 = 0"
    using ts12
    by (simp_all add: g13_def other_block sep_blocks)
  have cg13: "chain g13 (heap_start g13) [4096, 4128, 4160, 4192, 4224, 4256, 4288, 4416]"
    using tg13 by simp
  define s13 where "s13 = g13"
  have ts13:
    "heap_start s13 = 4096" "brk s13 = 4448" "os_grants s13 = (\<lambda>_ _. True)"
    "blk_size s13 4096 = 16" "\<not> blk_isFree s13 4096" "blk_next s13 4096 = 4128"
    "blk_size s13 4128 = 16" "\<not> blk_isFree s13 4128" "blk_next s13 4128 = 4160"
    "blk_size s13 4160 = 16" "\<not> blk_isFree s13 4160" "blk_next s13 4160 = 4192"
    "blk_size s13 4192 = 16" "\<not> blk_isFree s13 4192" "blk_next s13 4192 = 4224"
    "blk_size s13 4224 = 16" "\<not> blk_isFree s13 4224" "blk_next s13 4224 = 4256"
    "blk_size s13 4256 = 16" "\<not> blk_isFree s13 4256" "blk_next s13 4256 = 4288"
    "blk_size s13 4288 = 120" "\<not> blk_isFree s13 4288" "blk_next s13 4288 = 4416"
    "blk_size s13 4352 = 48" "blk_isFree s13 4352" "blk_next s13 4352 = 4416"
    "blk_size s13 4416 = 16" "blk_isFree s13 4416" "blk_next s13 4416 = 0"
    using tg13
    by (simp_all add: s13_def)
  have ps13: "mergePrev g13 4416 (heap_start g13) = Some s13"
    using mergePrev_chain[OF cg13, of 4416] tg13 by (simp add: s13_def)
  have os13: "free 4440 s12 = Some s13"
  proof -
    have nz: "(4440 :: addr) \<noteq> 0" by simp
    have blk: "(4440 :: addr) - sizeof_MemoryBlock = 4416" by (simp add: sizeof_MemoryBlock_def)
    have "mergeFreeBlocks 4416 g13 = Some s13"
      using mergeFreeBlocks_no_next[of g13 4416] ps13 tg13 by simp
    moreover have "mergeBlocks 4416 s13 = Some s13"
      by (rule mergeBlocks_stop) (simp add: ts13)
    ultimately show ?thesis
      unfolding free_unfold[OF nz blk] g13_def by simp
  qed
  have cs13: "chain s13 (heap_start s13) [4096, 4128, 4160, 4192, 4224, 4256, 4288, 4416]"
    using ts13 by simp
  \<comment> \<open>\<open>free(4280)\<close>, the block at 4256\<close>
  define g14 where "g14 = set_isFree 4256 True s13"
  have tg14:
    "heap_start g14 = 4096" "brk g14 = 4448" "os_grants g14 = (\<lambda>_ _. True)"
    "blk_size g14 4096 = 16" "\<not> blk_isFree g14 4096" "blk_next g14 4096 = 4128"
    "blk_size g14 4128 = 16" "\<not> blk_isFree g14 4128" "blk_next g14 4128 = 4160"
    "blk_size g14 4160 = 16" "\<not> blk_isFree g14 4160" "blk_next g14 4160 = 4192"
    "blk_size g14 4192 = 16" "\<not> blk_isFree g14 4192" "blk_next g14 4192 = 4224"
    "blk_size g14 4224 = 16" "\<not> blk_isFree g14 4224" "blk_next g14 4224 = 4256"
    "blk_size g14 4256 = 16" "blk_isFree g14 4256" "blk_next g14 4256 = 4288"
    "blk_size g14 4288 = 120" "\<not> blk_isFree g14 4288" "blk_next g14 4288 = 4416"
    "blk_size g14 4352 = 48" "blk_isFree g14 4352" "blk_next g14 4352 = 4416"
    "blk_size g14 4416 = 16" "blk_isFree g14 4416" "blk_next g14 4416 = 0"
    using ts13
    by (simp_all add: g14_def other_block sep_blocks)
  have cg14: "chain g14 (heap_start g14) [4096, 4128, 4160, 4192, 4224, 4256, 4288, 4416]"
    using tg14 by simp
  define s14 where "s14 = g14"
  have ts14:
    "heap_start s14 = 4096" "brk s14 = 4448" "os_grants s14 = (\<lambda>_ _. True)"
    "blk_size s14 4096 = 16" "\<not> blk_isFree s14 4096" "blk_next s14 4096 = 4128"
    "blk_size s14 4128 = 16" "\<not> blk_isFree s14 4128" "blk_next s14 4128 = 4160"
    "blk_size s14 4160 = 16" "\<not> blk_isFree s14 4160" "blk_next s14 4160 = 4192"
    "blk_size s14 4192 = 16" "\<not> blk_isFree s14 4192" "blk_next s14 4192 = 4224"
    "blk_size s14 4224 = 16" "\<not> blk_isFree s14 4224" "blk_next s14 4224 = 4256"
    "blk_size s14 4256 = 16" "blk_isFree s14 4256" "blk_next s14 4256 = 4288"
    "blk_size s14 4288 = 120" "\<not> blk_isFree s14 4288" "blk_next s14 4288 = 4416"
    "blk_size s14 4352 = 48" "blk_isFree s14 4352" "blk_next s14 4352 = 4416"
    "blk_size s14 4416 = 16" "blk_isFree s14 4416" "blk_next s14 4416 = 0"
    using tg14
    by (simp_all add: s14_def)
  have ps14: "mergePrev g14 4256 (heap_start g14) = Some s14"
    using mergePrev_chain[OF cg14, of 4256] tg14 by (simp add: s14_def)
  have os14: "free 4280 s13 = Some s14"
  proof -
    have nz: "(4280 :: addr) \<noteq> 0" by simp
    have blk: "(4280 :: addr) - sizeof_MemoryBlock = 4256" by (simp add: sizeof_MemoryBlock_def)
    have "mergeFreeBlocks 4256 g14 = Some s14"
      using mergeFreeBlocks_no_next[of g14 4256] ps14 tg14 by simp
    moreover have "mergeBlocks 4256 s14 = Some s14"
      by (rule mergeBlocks_stop) (simp add: ts14)
    ultimately show ?thesis
      unfolding free_unfold[OF nz blk] g14_def by simp
  qed
  have cs14: "chain s14 (heap_start s14) [4096, 4128, 4160, 4192, 4224, 4256, 4288, 4416]"
    using ts14 by simp
  \<comment> \<open>\<open>free(4120)\<close>, the block at 4096\<close>
  define g15 where "g15 = set_isFree 4096 True s14"
  have tg15:
    "heap_start g15 = 4096" "brk g15 = 4448" "os_grants g15 = (\<lambda>_ _. True)"
    "blk_size g15 4096 = 16" "blk_isFree g15 4096" "blk_next g15 4096 = 4128"
    "blk_size g15 4128 = 16" "\<not> blk_isFree g15 4128" "blk_next g15 4128 = 4160"
    "blk_size g15 4160 = 16" "\<not> blk_isFree g15 4160" "blk_next g15 4160 = 4192"
    "blk_size g15 4192 = 16" "\<not> blk_isFree g15 4192" "blk_next g15 4192 = 4224"
    "blk_size g15 4224 = 16" "\<not> blk_isFree g15 4224" "blk_next g15 4224 = 4256"
    "blk_size g15 4256 = 16" "blk_isFree g15 4256" "blk_next g15 4256 = 4288"
    "blk_size g15 4288 = 120" "\<not> blk_isFree g15 4288" "blk_next g15 4288 = 4416"
    "blk_size g15 4352 = 48" "blk_isFree g15 4352" "blk_next g15 4352 = 4416"
    "blk_size g15 4416 = 16" "blk_isFree g15 4416" "blk_next g15 4416 = 0"
    using ts14
    by (simp_all add: g15_def other_block sep_blocks)
  have cg15: "chain g15 (heap_start g15) [4096, 4128, 4160, 4192, 4224, 4256, 4288, 4416]"
    using tg15 by simp
  define s15 where "s15 = g15"
  have ts15:
    "heap_start s15 = 4096" "brk s15 = 4448" "os_grants s15 = (\<lambda>_ _. True)"
    "blk_size s15 4096 = 16" "blk_isFree s15 4096" "blk_next s15 4096 = 4128"
    "blk_size s15 4128 = 16" "\<not> blk_isFree s15 4128" "blk_next s15 4128 = 4160"
    "blk_size s15 4160 = 16" "\<not> blk_isFree s15 4160" "blk_next s15 4160 = 4192"
    "blk_size s15 4192 = 16" "\<not> blk_isFree s15 4192" "blk_next s15 4192 = 4224"
    "blk_size s15 4224 = 16" "\<not> blk_isFree s15 4224" "blk_next s15 4224 = 4256"
    "blk_size s15 4256 = 16" "blk_isFree s15 4256" "blk_next s15 4256 = 4288"
    "blk_size s15 4288 = 120" "\<not> blk_isFree s15 4288" "blk_next s15 4288 = 4416"
    "blk_size s15 4352 = 48" "blk_isFree s15 4352" "blk_next s15 4352 = 4416"
    "blk_size s15 4416 = 16" "blk_isFree s15 4416" "blk_next s15 4416 = 0"
    using tg15
    by (simp_all add: s15_def)
  have ps15: "mergePrev g15 4096 (heap_start g15) = Some s15"
    using mergePrev_chain[OF cg15, of 4096] tg15 by (simp add: s15_def)
  have os15: "free 4120 s14 = Some s15"
  proof -
    have nz: "(4120 :: addr) \<noteq> 0" by simp
    have blk: "(4120 :: addr) - sizeof_MemoryBlock = 4096" by (simp add: sizeof_MemoryBlock_def)
    have "mergeFreeBlocks 4096 g15 = Some s15"
      using mergeFreeBlocks_no_next[of g15 4096] ps15 tg15 by simp
    moreover have "mergeBlocks 4096 s15 = Some s15"
      by (rule mergeBlocks_stop) (simp add: ts15)
    ultimately show ?thesis
      unfolding free_unfold[OF nz blk] g15_def by simp
  qed
  have cs15: "chain s15 (heap_start s15) [4096, 4128, 4160, 4192, 4224, 4256, 4288, 4416]"
    using ts15 by simp
  \<comment> \<open>\<open>free(4152)\<close>, the block at 4128\<close>
  define g16 where "g16 = set_isFree 4128 True s15"
  have tg16:
    "heap_start g16 = 4096" "brk g16 = 4448" "os_grants g16 = (\<lambda>_ _. True)"
    "blk_size g16 4096 = 16" "blk_isFree g16 4096" "blk_next g16 4096 = 4128"
    "blk_size g16 4128 = 16" "blk_isFree g16 4128" "blk_next g16 4128 = 4160"
    "blk_size g16 4160 = 16" "\<not> blk_isFree g16 4160" "blk_next g16 4160 = 4192"
    "blk_size g16 4192 = 16" "\<not> blk_isFree g16 4192" "blk_next g16 4192 = 4224"
    "blk_size g16 4224 = 16" "\<not> blk_isFree g16 4224" "blk_next g16 4224 = 4256"
    "blk_size g16 4256 = 16" "blk_isFree g16 4256" "blk_next g16 4256 = 4288"
    "blk_size g16 4288 = 120" "\<not> blk_isFree g16 4288" "blk_next g16 4288 = 4416"
    "blk_size g16 4352 = 48" "blk_isFree g16 4352" "blk_next g16 4352 = 4416"
    "blk_size g16 4416 = 16" "blk_isFree g16 4416" "blk_next g16 4416 = 0"
    using ts15
    by (simp_all add: g16_def other_block sep_blocks)
  have cg16: "chain g16 (heap_start g16) [4096, 4128, 4160, 4192, 4224, 4256, 4288, 4416]"
    using tg16 by simp
  define s16 where "s16 = absorb 4096 4128 g16"
  have ts16:
    "heap_start s16 = 4096" "brk s16 = 4448" "os_grants s16 = (\<lambda>_ _. True)"
    "blk_size s16 4096 = 56" "blk_isFree s16 4096" "blk_next s16 4096 = 4160"
    "blk_size s16 4128 = 16" "blk_isFree s16 4128" "blk_next s16 4128 = 4160"
    "blk_size s16 4160 = 16" "\<not> blk_isFree s16 4160" "blk_next s16 4160 = 4192"
    "blk_size s16 4192 = 16" "\<not> blk_isFree s16 4192" "blk_next s16 4192 = 4224"
    "blk_size s16 4224 = 16" "\<not> blk_isFree s16 4224" "blk_next s16 4224 = 4256"
    "blk_size s16 4256 = 16" "blk_isFree s16 4256" "blk_next s16 4256 = 4288"
    "blk_size s16 4288 = 120" "\<not> blk_isFree s16 4288" "blk_next s16 4288 = 4416"
    "blk_size s16 4352 = 48" "blk_isFree s16 4352" "blk_next s16 4352 = 4416"
    "blk_size s16 4416 = 16" "blk_isFree s16 4416" "blk_next s16 4416 = 0"
    using tg16
    by (simp_all add: s16_def absorb_def Let_def sizeof_MemoryBlock_def other_block sep_blocks)
  have ps16: "mergePrev g16 4128 (heap_start g16) = Some s16"
    using mergePrev_chain[OF cg16, of 4128] tg16 by (simp add: s16_def)
  have os16: "free 4152 s15 = Some s16"
  proof -
    have nz: "(4152 :: addr) \<noteq> 0" by simp
    have blk: "(4152 :: addr) - sizeof_MemoryBlock = 4128" by (simp add: sizeof_MemoryBlock_def)
    have "mergeFreeBlocks 4128 g16 = Some s16"
      using mergeFreeBlocks_no_next[of g16 4128] ps16 tg16 by simp
    moreover have "mergeBlocks 4128 s16 = Some s16"
      by (rule mergeBlocks_stop) (simp add: ts16)
    ultimately show ?thesis
      unfolding free_unfold[OF nz blk] g16_def by simp
  qed
  have cs16: "chain s16 (heap_start s16) [4096, 4160, 4192, 4224, 4256, 4288, 4416]"
    using ts16 by simp
  \<comment> \<open>\<open>free(4184)\<close>, the block at 4160\<close>
  define g17 where "g17 = set_isFree 4160 True s16"
  have tg17:
    "heap_start g17 = 4096" "brk g17 = 4448" "os_grants g17 = (\<lambda>_ _. True)"
    "blk_size g17 4096 = 56" "blk_isFree g17 4096" "blk_next g17 4096 = 4160"
    "blk_size g17 4128 = 16" "blk_isFree g17 4128" "blk_next g17 4128 = 4160"
    "blk_size g17 4160 = 16" "blk_isFree g17 4160" "blk_next g17 4160 = 4192"
    "blk_size g17 4192 = 16" "\<not> blk_isFree g17 4192" "blk_next g17 4192 = 4224"
    "blk_size g17 4224 = 16" "\<not> blk_isFree g17 4224" "blk_next g17 4224 = 4256"
    "blk_size g17 4256 = 16" "blk_isFree g17 4256" "blk_next g17 4256 = 4288"
    "blk_size g17 4288 = 120" "\<not> blk_isFree g17 4288" "blk_next g17 4288 = 4416"
    "blk_size g17 4352 = 48" "blk_isFree g17 4352" "blk_next g17 4352 = 4416"
    "blk_size g17 4416 = 16" "blk_isFree g17 4416" "blk_next g17 4416 = 0"
    using ts16
    by (simp_all add: g17_def other_block sep_blocks)
  have cg17: "chain g17 (heap_start g17) [4096, 4160, 4192, 4224, 4256, 4288, 4416]"
    using tg17 by simp
  define s17 where "s17 = absorb 4096 4160 g17"
  have ts17:
    "heap_start s17 = 4096" "brk s17 = 4448" "os_grants s17 = (\<lambda>_ _. True)"
    "blk_size s17 4096 = 96" "blk_isFree s17 4096" "blk_next s17 4096 = 4192"
    "blk_size s17 4128 = 16" "blk_isFree s17 4128" "blk_next s17 4128 = 4160"
    "blk_size s17 4160 = 16" "blk_isFree s17 4160" "blk_next s17 4160 = 4192"
    "blk_size s17 4192 = 16" "\<not> blk_isFree s17 4192" "blk_next s17 4192 = 4224"
    "blk_size s17 4224 = 16" "\<not> blk_isFree s17 4224" "blk_next s17 4224 = 4256"
    "blk_size s17 4256 = 16" "blk_isFree s17 4256" "blk_next s17 4256 = 4288"
    "blk_size s17 4288 = 120" "\<not> blk_isFree s17 4288" "blk_next s17 4288 = 4416"
    "blk_size s17 4352 = 48" "blk_isFree s17 4352" "blk_next s17 4352 = 4416"
    "blk_size s17 4416 = 16" "blk_isFree s17 4416" "blk_next s17 4416 = 0"
    using tg17
    by (simp_all add: s17_def absorb_def Let_def sizeof_MemoryBlock_def other_block sep_blocks)
  have ps17: "mergePrev g17 4160 (heap_start g17) = Some s17"
    using mergePrev_chain[OF cg17, of 4160] tg17 by (simp add: s17_def)
  have os17: "free 4184 s16 = Some s17"
  proof -
    have nz: "(4184 :: addr) \<noteq> 0" by simp
    have blk: "(4184 :: addr) - sizeof_MemoryBlock = 4160" by (simp add: sizeof_MemoryBlock_def)
    have "mergeFreeBlocks 4160 g17 = Some s17"
      using mergeFreeBlocks_no_next[of g17 4160] ps17 tg17 by simp
    moreover have "mergeBlocks 4160 s17 = Some s17"
      by (rule mergeBlocks_stop) (simp add: ts17)
    ultimately show ?thesis
      unfolding free_unfold[OF nz blk] g17_def by simp
  qed
  have cs17: "chain s17 (heap_start s17) [4096, 4192, 4224, 4256, 4288, 4416]"
    using ts17 by simp
  \<comment> \<open>\<open>free(4216)\<close>, the block at 4192\<close>
  define g18 where "g18 = set_isFree 4192 True s17"
  have tg18:
    "heap_start g18 = 4096" "brk g18 = 4448" "os_grants g18 = (\<lambda>_ _. True)"
    "blk_size g18 4096 = 96" "blk_isFree g18 4096" "blk_next g18 4096 = 4192"
    "blk_size g18 4128 = 16" "blk_isFree g18 4128" "blk_next g18 4128 = 4160"
    "blk_size g18 4160 = 16" "blk_isFree g18 4160" "blk_next g18 4160 = 4192"
    "blk_size g18 4192 = 16" "blk_isFree g18 4192" "blk_next g18 4192 = 4224"
    "blk_size g18 4224 = 16" "\<not> blk_isFree g18 4224" "blk_next g18 4224 = 4256"
    "blk_size g18 4256 = 16" "blk_isFree g18 4256" "blk_next g18 4256 = 4288"
    "blk_size g18 4288 = 120" "\<not> blk_isFree g18 4288" "blk_next g18 4288 = 4416"
    "blk_size g18 4352 = 48" "blk_isFree g18 4352" "blk_next g18 4352 = 4416"
    "blk_size g18 4416 = 16" "blk_isFree g18 4416" "blk_next g18 4416 = 0"
    using ts17
    by (simp_all add: g18_def other_block sep_blocks)
  have cg18: "chain g18 (heap_start g18) [4096, 4192, 4224, 4256, 4288, 4416]"
    using tg18 by simp
  define s18 where "s18 = absorb 4096 4192 g18"
  have ts18:
    "heap_start s18 = 4096" "brk s18 = 4448" "os_grants s18 = (\<lambda>_ _. True)"
    "blk_size s18 4096 = 136" "blk_isFree s18 4096" "blk_next s18 4096 = 4224"
    "blk_size s18 4128 = 16" "blk_isFree s18 4128" "blk_next s18 4128 = 4160"
    "blk_size s18 4160 = 16" "blk_isFree s18 4160" "blk_next s18 4160 = 4192"
    "blk_size s18 4192 = 16" "blk_isFree s18 4192" "blk_next s18 4192 = 4224"
    "blk_size s18 4224 = 16" "\<not> blk_isFree s18 4224" "blk_next s18 4224 = 4256"
    "blk_size s18 4256 = 16" "blk_isFree s18 4256" "blk_next s18 4256 = 4288"
    "blk_size s18 4288 = 120" "\<not> blk_isFree s18 4288" "blk_next s18 4288 = 4416"
    "blk_size s18 4352 = 48" "blk_isFree s18 4352" "blk_next s18 4352 = 4416"
    "blk_size s18 4416 = 16" "blk_isFree s18 4416" "blk_next s18 4416 = 0"
    using tg18
    by (simp_all add: s18_def absorb_def Let_def sizeof_MemoryBlock_def other_block sep_blocks)
  have ps18: "mergePrev g18 4192 (heap_start g18) = Some s18"
    using mergePrev_chain[OF cg18, of 4192] tg18 by (simp add: s18_def)
  have os18: "free 4216 s17 = Some s18"
  proof -
    have nz: "(4216 :: addr) \<noteq> 0" by simp
    have blk: "(4216 :: addr) - sizeof_MemoryBlock = 4192" by (simp add: sizeof_MemoryBlock_def)
    have "mergeFreeBlocks 4192 g18 = Some s18"
      using mergeFreeBlocks_no_next[of g18 4192] ps18 tg18 by simp
    moreover have "mergeBlocks 4192 s18 = Some s18"
      by (rule mergeBlocks_stop) (simp add: ts18)
    ultimately show ?thesis
      unfolding free_unfold[OF nz blk] g18_def by simp
  qed
  have cs18: "chain s18 (heap_start s18) [4096, 4224, 4256, 4288, 4416]"
    using ts18 by simp
  \<comment> \<open>\<open>realloc(4312, 121)\<close>: a fresh block, the copy, the release\<close>
  \<comment> \<open>\<open>malloc(121)\<close>\<close>
  define s19 where "s19 = set_isFree 4096 False s18"
  have os19: "malloc 121 s18 = Some (4120, s19)"
    using malloc_hit[OF _ _ cs18, of 121 4096] ts18
    by (simp add: span_121 first_fit_def splitBlock_def sizeof_MemoryBlock_def s19_def)
  have ts19:
    "heap_start s19 = 4096" "brk s19 = 4448" "os_grants s19 = (\<lambda>_ _. True)"
    "blk_size s19 4096 = 136" "\<not> blk_isFree s19 4096" "blk_next s19 4096 = 4224"
    "blk_size s19 4128 = 16" "blk_isFree s19 4128" "blk_next s19 4128 = 4160"
    "blk_size s19 4160 = 16" "blk_isFree s19 4160" "blk_next s19 4160 = 4192"
    "blk_size s19 4192 = 16" "blk_isFree s19 4192" "blk_next s19 4192 = 4224"
    "blk_size s19 4224 = 16" "\<not> blk_isFree s19 4224" "blk_next s19 4224 = 4256"
    "blk_size s19 4256 = 16" "blk_isFree s19 4256" "blk_next s19 4256 = 4288"
    "blk_size s19 4288 = 120" "\<not> blk_isFree s19 4288" "blk_next s19 4288 = 4416"
    "blk_size s19 4352 = 48" "blk_isFree s19 4352" "blk_next s19 4352 = 4416"
    "blk_size s19 4416 = 16" "blk_isFree s19 4416" "blk_next s19 4416 = 0"
    using ts18
    by (simp_all add: s19_def other_block sep_blocks)
  have cs19: "chain s19 (heap_start s19) [4096, 4224, 4256, 4288, 4416]"
    using ts19 by simp
  define m20 where "m20 = memcpy_heap 4120 4312 120 s19"
  have tm20:
    "heap_start m20 = 4096" "brk m20 = 4448" "os_grants m20 = (\<lambda>_ _. True)"
    "blk_size m20 4096 = 136" "\<not> blk_isFree m20 4096" "blk_next m20 4096 = 4224"
    "blk_size m20 4224 = 16" "blk_isFree m20 4224" "blk_next m20 4224 = 4256"
    "blk_size m20 4256 = 16" "blk_isFree m20 4256" "blk_next m20 4256 = 4288"
    "blk_size m20 4288 = 120" "\<not> blk_isFree m20 4288" "blk_next m20 4288 = 4416"
    "blk_size m20 4416 = 16" "blk_isFree m20 4416" "blk_next m20 4416 = 0"
    using ts19
    by (simp_all add: m20_def blk_size_memcpy_in blk_size_memcpy_out blk_next_memcpy_in blk_next_memcpy_out blk_isFree_memcpy_in blk_isFree_memcpy_out)
  have cm20: "chain m20 (heap_start m20) [4096, 4224, 4256, 4288, 4416]"
    using tm20 by simp
  \<comment> \<open>\<open>free(4312)\<close>, the block at 4288\<close>
  define g21 where "g21 = set_isFree 4288 True m20"
  have tg21:
    "heap_start g21 = 4096" "brk g21 = 4448" "os_grants g21 = (\<lambda>_ _. True)"
    "blk_size g21 4096 = 136" "\<not> blk_isFree g21 4096" "blk_next g21 4096 = 4224"
    "blk_size g21 4224 = 16" "blk_isFree g21 4224" "blk_next g21 4224 = 4256"
    "blk_size g21 4256 = 16" "blk_isFree g21 4256" "blk_next g21 4256 = 4288"
    "blk_size g21 4288 = 120" "blk_isFree g21 4288" "blk_next g21 4288 = 4416"
    "blk_size g21 4416 = 16" "blk_isFree g21 4416" "blk_next g21 4416 = 0"
    using tm20
    by (simp_all add: g21_def other_block sep_blocks)
  define f21 where "f21 = absorb 4288 4416 g21"
  have tf21:
    "heap_start f21 = 4096" "brk f21 = 4448" "os_grants f21 = (\<lambda>_ _. True)"
    "blk_size f21 4096 = 136" "\<not> blk_isFree f21 4096" "blk_next f21 4096 = 4224"
    "blk_size f21 4224 = 16" "blk_isFree f21 4224" "blk_next f21 4224 = 4256"
    "blk_size f21 4256 = 16" "blk_isFree f21 4256" "blk_next f21 4256 = 4288"
    "blk_size f21 4288 = 160" "blk_isFree f21 4288" "blk_next f21 4288 = 0"
    "blk_size f21 4416 = 16" "blk_isFree f21 4416" "blk_next f21 4416 = 0"
    using tg21
    by (simp_all add: f21_def absorb_def Let_def sizeof_MemoryBlock_def other_block sep_blocks)
  have cf21: "chain f21 (heap_start f21) [4096, 4224, 4256, 4288]"
    using tf21 by simp
  define s21 where "s21 = absorb 4256 4288 f21"
  have ts21:
    "heap_start s21 = 4096" "brk s21 = 4448" "os_grants s21 = (\<lambda>_ _. True)"
    "blk_size s21 4096 = 136" "\<not> blk_isFree s21 4096" "blk_next s21 4096 = 4224"
    "blk_size s21 4224 = 16" "blk_isFree s21 4224" "blk_next s21 4224 = 4256"
    "blk_size s21 4256 = 200" "blk_isFree s21 4256" "blk_next s21 4256 = 0"
    "blk_size s21 4288 = 160" "blk_isFree s21 4288" "blk_next s21 4288 = 0"
    "blk_size s21 4416 = 16" "blk_isFree s21 4416" "blk_next s21 4416 = 0"
    using tf21
    by (simp_all add: s21_def absorb_def Let_def sizeof_MemoryBlock_def other_block sep_blocks)
  have ps21: "mergePrev f21 4288 (heap_start f21) = Some s21"
    using mergePrev_chain[OF cf21, of 4288] tf21 by (simp add: s21_def)
  have os21: "free 4312 m20 = Some s21"
  proof -
    have nz: "(4312 :: addr) \<noteq> 0" by simp
    have blk: "(4312 :: addr) - sizeof_MemoryBlock = 4288" by (simp add: sizeof_MemoryBlock_def)
    have "mergeFreeBlocks 4288 g21 = Some s21"
      using mergeFreeBlocks_next[of g21 4288] ps21 tg21 by (simp add: f21_def)
    moreover have "mergeBlocks 4288 s21 = Some s21"
      by (rule mergeBlocks_stop) (simp add: ts21)
    ultimately show ?thesis
      unfolding free_unfold[OF nz blk] g21_def by simp
  qed
  have cs21: "chain s21 (heap_start s21) [4096, 4224, 4256]"
    using ts21 by simp
  have rs21: "realloc 4312 121 s18 = Some (4120, s21)"
  proof -
    have nz: "(4312 :: addr) \<noteq> 0" by simp
    have blk: "(4312 :: addr) - sizeof_MemoryBlock = 4288" by (simp add: sizeof_MemoryBlock_def)
    show ?thesis
      using realloc_moves[OF nz _ blk _ os19] ts18 ts19 os21 by (simp add: m20_def)
  qed
  have "run [Malloc 8, Malloc 8, Malloc 8, Malloc 8, Malloc 8, Malloc 8, Malloc 40, Malloc 40, Malloc 8, Free 4312, Free 4376, Malloc 112, Free 4440, Free 4280, Free 4120, Free 4152, Free 4184, Free 4216, Realloc 4312 121] arena0 =
          Some ([4120, 4152, 4184, 4216, 4248, 4280, 4312, 4376, 4440, 0, 0, 4312, 0, 0, 0, 0, 0, 0, 4120], s21)"
    by (simp add: os1 os2 os3 os4 os5 os6 os7 os8 os9 os10 os11 os12 os13 os14 os15 os16 os17 os18 rs21)
  then show ?thesis using cs21 ts21 by simp
qed

end
